theory Spec2Isabelle
  imports Complex_Main "HOL-Library.Word"
begin

unbundle bit_operations_syntax

section \<open>JavaScript values\<close>

text \<open>
  The emulator of \<^verbatim>\<open>lib/index.js\<close> keeps its registers in plain JavaScript
  properties and arrays. The values that can reach them are \<^verbatim>\<open>undefined\<close> (a hole of
  an array, a read past the end of the typed array), \<^verbatim>\<open>NaN\<close> (arithmetic on
  \<^verbatim>\<open>undefined\<close>) and integral numbers. Integral numbers are unbounded here: the
  doubles of JavaScript are exact on them up to \<open>2 ^ 53\<close>.
\<close>

datatype jsval = Undefined | NaN | Num int

fun js_add :: "jsval \<Rightarrow> jsval \<Rightarrow> jsval" where
  "js_add (Num a) (Num b) = Num (a + b)"
| "js_add _ _ = NaN"

fun js_sub :: "jsval \<Rightarrow> jsval \<Rightarrow> jsval" where
  "js_sub (Num a) (Num b) = Num (a - b)"
| "js_sub _ _ = NaN"

fun js_mul :: "jsval \<Rightarrow> jsval \<Rightarrow> jsval" where
  "js_mul (Num a) (Num b) = Num (a * b)"
| "js_mul _ _ = NaN"

text \<open>Relational operators: a comparison with \<^verbatim>\<open>NaN\<close> or \<^verbatim>\<open>undefined\<close> is false.\<close>

fun js_gt :: "jsval \<Rightarrow> jsval \<Rightarrow> bool" where
  "js_gt (Num a) (Num b) = (a > b)"
| "js_gt _ _ = False"

fun js_lt :: "jsval \<Rightarrow> jsval \<Rightarrow> bool" where
  "js_lt (Num a) (Num b) = (a < b)"
| "js_lt _ _ = False"

text \<open>Strict equality \<^verbatim>\<open>===\<close>: \<^verbatim>\<open>NaN\<close> is not equal to itself.\<close>

fun js_seq :: "jsval \<Rightarrow> jsval \<Rightarrow> bool" where
  "js_seq (Num a) (Num b) = (a = b)"
| "js_seq Undefined Undefined = True"
| "js_seq _ _ = False"

text \<open>\<^verbatim>\<open>!a\<close> is true on \<^verbatim>\<open>undefined\<close>, \<^verbatim>\<open>NaN\<close> and \<open>0\<close>.\<close>

fun js_not :: "jsval \<Rightarrow> bool" where
  "js_not (Num a) = (a = 0)"
| "js_not _ = True"

text \<open>
  The bitwise operators work on \<open>ToInt32\<close> of their operands and give a 32-bit signed
  integer; \<^verbatim>\<open>a << k\<close> wraps into 32 bits, \<^verbatim>\<open>a >> k\<close> is the arithmetic shift.
\<close>

fun ToInt32 :: "jsval \<Rightarrow> int" where
  "ToInt32 (Num a) = signed_take_bit 31 a"
| "ToInt32 _ = 0"

definition shl32 :: "int \<Rightarrow> nat \<Rightarrow> int" where
  "shl32 a k = signed_take_bit 31 (push_bit k a)"

definition sar32 :: "int \<Rightarrow> nat \<Rightarrow> int" where
  "sar32 a k = drop_bit k a"

text \<open>A store into a \<^verbatim>\<open>Uint8Array\<close> keeps the value modulo 256; \<^verbatim>\<open>NaN\<close> is stored as 0.\<close>

fun ToUint8 :: "jsval \<Rightarrow> 8 word" where
  "ToUint8 (Num a) = word_of_int a"
| "ToUint8 _ = 0"

text \<open>Unary plus on a boolean, \<^verbatim>\<open>+(a > b)\<close>.\<close>

definition js_of_bool :: "bool \<Rightarrow> jsval" where
  "js_of_bool b = Num (if b then 1 else 0)"

section \<open>The emulator state\<close>

text \<open>
  The fields of a \<^verbatim>\<open>Chip8\<close> object. \<open>memory\<close> is the \<^verbatim>\<open>Uint8Array(0x1000)\<close>: a
  cell for each address, read and written through \<open>mem_read\<close> and \<open>mem_write\<close>, which
  know its fixed length. \<open>stack\<close>, \<open>v\<close> and \<open>display\<close> are ordinary arrays: a
  property for every key that was ever written, \<^verbatim>\<open>undefined\<close> elsewhere; \<open>display\<close>
  is indexed by a computed number, which can be \<^verbatim>\<open>NaN\<close>. \<open>sp\<close> is only ever changed
  by \<^verbatim>\<open>++\<close> and \<^verbatim>\<open>--\<close> from 0, so it is an integer. \<open>renderer_cleared\<close> counts
  the calls of \<^verbatim>\<open>renderer.clear()\<close>: the renderer is an object outside this file, and
  the call hands it no reference to the emulator. The emulator is taken to be
  constructed with \<^verbatim>\<open>opts.renderer\<close> an object whose \<^verbatim>\<open>clear\<close> returns; constructed
  without one, \<^verbatim>\<open>this.renderer\<close> is \<^verbatim>\<open>undefined\<close> and \<^verbatim>\<open>00E0\<close> throws a
  \<^verbatim>\<open>TypeError\<close>, which this model does not have.
\<close>

record state =
  memory :: "int \<Rightarrow> 8 word"
  stack :: "int \<Rightarrow> jsval"
  v :: "int \<Rightarrow> jsval"
  i :: jsval
  dt :: jsval
  st :: jsval
  pc :: jsval
  sp :: int
  running :: bool
  display :: "jsval \<Rightarrow> jsval"
  requestRender :: bool
  renderer_cleared :: nat

datatype error = Unknown_opcode int | TypeError

definition displayWidth :: int where
  "displayWidth = 64"

definition displayHeight :: int where
  "displayHeight = 32"

text \<open>
  Reading the typed array outside \<open>0 \<le> a < 0x1000\<close> (or at \<^verbatim>\<open>NaN\<close>,
  \<^verbatim>\<open>undefined\<close>) gives \<^verbatim>\<open>undefined\<close>; a write there is dropped. Every index
  written is a sum, so it is a number or \<^verbatim>\<open>NaN\<close>, never \<^verbatim>\<open>undefined\<close>.
\<close>

fun mem_read :: "(int \<Rightarrow> 8 word) \<Rightarrow> jsval \<Rightarrow> jsval" where
  "mem_read m (Num a) = (if 0 \<le> a \<and> a < 0x1000 then Num (uint (m a)) else Undefined)"
| "mem_read m _ = Undefined"

fun mem_write :: "(int \<Rightarrow> 8 word) \<Rightarrow> jsval \<Rightarrow> jsval \<Rightarrow> (int \<Rightarrow> 8 word)" where
  "mem_write m (Num a) b = (if 0 \<le> a \<and> a < 0x1000 then m(a := ToUint8 b) else m)"
| "mem_write m _ b = m"

definition set_v :: "int \<Rightarrow> jsval \<Rightarrow> state \<Rightarrow> state" where
  "set_v k a s = s\<lparr>v := (v s)(k := a)\<rparr>"

section \<open>Construction and loading\<close>

definition hexDigits :: "8 word list" where
  "hexDigits =
    [0xF0, 0x90, 0x90, 0x90, 0xF0,
     0x20, 0x60, 0x20, 0x20, 0x70,
     0xF0, 0x10, 0xF0, 0x80, 0xF0,
     0xF0, 0x10, 0xF0, 0x10, 0xF0,
     0x90, 0x90, 0xF0, 0x10, 0xF0,
     0xF0, 0x80, 0xF0, 0x10, 0xF0,
     0xF0, 0x80, 0xF0, 0x90, 0xF0,
     0xF0, 0x10, 0x20, 0x40, 0x40,
     0xF0, 0x90, 0xF0, 0x90, 0xF0,
     0xF0, 0x90, 0xF0, 0x10, 0xF0,
     0xF0, 0x90, 0xF0, 0x90, 0x90,
     0xE0, 0x90, 0xE0, 0x90, 0xE0,
     0xF0, 0x80, 0x80, 0x80, 0xF0,
     0xE0, 0x90, 0x90, 0x90, 0xE0,
     0xF0, 0x80, 0xF0, 0x80, 0xF0,
     0xF0, 0x80, 0xF0, 0x80, 0x80]"

text \<open>
  \<^verbatim>\<open>new Chip8(opts)\<close>: the constructor allocates the arrays (\<open>stack\<close> as 16 holes)
  and calls \<^verbatim>\<open>reset()\<close>, which zeroes the memory, copies the font to address 0, zeroes
  the 16 registers and the \<open>64 * 32\<close> cells of the display, and sets \<open>pc = 0x200\<close>,
  \<open>sp = 0\<close>. \<^verbatim>\<open>requestRender\<close> is not initialised; its \<^verbatim>\<open>undefined\<close> is read as
  false by the only test of it.
\<close>

definition Chip8 :: state where
  "Chip8 =
    \<lparr>memory = (\<lambda>a. if 0 \<le> a \<and> a < int (length hexDigits) then hexDigits ! nat a else 0),
     stack = (\<lambda>k. Undefined),
     v = (\<lambda>k. if 0 \<le> k \<and> k < 16 then Num 0 else Undefined),
     i = Num 0,
     dt = Num 0,
     st = Num 0,
     pc = Num 0x200,
     sp = 0,
     running = False,
     display = (\<lambda>k. case k of
                  Num a \<Rightarrow> if 0 \<le> a \<and> a < displayWidth * displayHeight then Num 0 else Undefined
                | _ \<Rightarrow> Undefined),
     requestRender = False,
     renderer_cleared = 0\<rparr>"

text \<open>
  \<^verbatim>\<open>load(opts, cb)\<close> hands the loader a callback \<^verbatim>\<open>function(err, p)\<close>. The outcome of
  the loader is the pair of arguments it calls back with: \<open>err\<close> (\<open>None\<close> for
  \<^verbatim>\<open>null\<close>) and the program bytes \<open>p\<close> (\<open>None\<close> when the loader passes no
  program). The callback reads \<^verbatim>\<open>p.length\<close> first, which throws a \<^verbatim>\<open>TypeError\<close> on
  an absent \<open>p\<close>; otherwise it copies the bytes to \<open>0x200\<close> onwards and then calls
  \<^verbatim>\<open>cb(err)\<close>. The result is the thrown error, or the new state with the argument
  that \<^verbatim>\<open>cb\<close> received.
\<close>

type_synonym loader_outcome = "string option \<times> 8 word list option"

definition load :: "loader_outcome \<Rightarrow> state \<Rightarrow> error + (state \<times> string option)" where
  "load outcome s =
    (case outcome of
       (err, None) \<Rightarrow> Inl TypeError
     | (err, Some p) \<Rightarrow>
         Inr (s\<lparr>memory :=
                 fold (\<lambda>k m. mem_write m (Num (0x200 + int k)) (Num (uint (p ! k))))
                   [0..<length p] (memory s)\<rparr>,
              err))"

section \<open>Drawing\<close>

text \<open>
  \<^verbatim>\<open>setPixel(x, y)\<close>: a coordinate strictly greater than the dimension is reduced by
  it once, a negative one is raised by it once; the cell at \<open>x + y * w\<close> is XORed with 1
  and the result says whether the cell is now off.
\<close>

definition location :: "jsval \<Rightarrow> jsval \<Rightarrow> jsval" where
  "location x y =
    (let w = Num displayWidth;
         h = Num displayHeight;
         x1 = (if js_gt x w then js_sub x w else if js_lt x (Num 0) then js_add x w else x);
         y1 = (if js_gt y h then js_sub y h else if js_lt y (Num 0) then js_add y h else y)
     in js_add x1 (js_mul y1 w))"

definition setPixel :: "jsval \<Rightarrow> jsval \<Rightarrow> state \<Rightarrow> bool \<times> state" where
  "setPixel x y s =
    (let l = location x y;
         s1 = s\<lparr>display := (display s)(l := Num (ToInt32 (display s l) XOR 1))\<rparr>
     in (js_not (display s1 l), s1))"

text \<open>
  The body of the inner loop of \<^verbatim>\<open>Dxyn\<close> for column \<open>cx\<close> of row \<open>cy\<close>; the loop
  carries the shifted sprite byte \<open>spr\<close> along with the state.
\<close>

definition DRW_column :: "jsval \<Rightarrow> jsval \<Rightarrow> int \<Rightarrow> int \<Rightarrow> jsval \<times> state \<Rightarrow> jsval \<times> state" where
  "DRW_column vx vy cy cx acc =
    (let spr = fst acc;
         s = snd acc;
         s1 = (if ToInt32 spr AND 0x80 > 0
               then (let r = setPixel (js_add vx (Num cx)) (js_add vy (Num cy)) s
                     in if fst r then set_v 0xF (Num 1) (snd r) else snd r)
               else s)
     in (Num (shl32 (ToInt32 spr) 1), s1))"

definition DRW_row :: "jsval \<Rightarrow> jsval \<Rightarrow> int \<Rightarrow> state \<Rightarrow> state" where
  "DRW_row vx vy cy s =
    (let spr = mem_read (memory s) (js_add (i s) (Num cy));
         s1 = snd (fold (DRW_column vx vy cy) [0..7] (spr, s))
     in s1\<lparr>requestRender := True\<rparr>)"

definition DRW :: "int \<Rightarrow> int \<Rightarrow> int \<Rightarrow> state \<Rightarrow> state" where
  "DRW x y n s =
    (let s1 = set_v 0xF (Num 0) s;
         vx = v s1 x;
         vy = v s1 y
     in fold (DRW_row vx vy) [0..n - 1] s1)"

section \<open>The instructions\<close>

text \<open>
  One definition for each case of the \<^verbatim>\<open>switch\<close> in \<^verbatim>\<open>runCycle\<close>, named after the
  mnemonic in its comment. Each takes the decoded fields it uses and the state after
  \<^verbatim>\<open>this.pc += 2\<close>. The statements of a case run in the source's order: a register
  written by one statement is read back by the next, also when \<open>x\<close> or \<open>y\<close> is
  \<open>0xF\<close>.
\<close>

definition CLS :: "state \<Rightarrow> state" where
  "CLS s = s\<lparr>renderer_cleared := Suc (renderer_cleared s)\<rparr>"

definition RET :: "state \<Rightarrow> state" where
  "RET s = (let s1 = s\<lparr>sp := sp s - 1\<rparr> in s1\<lparr>pc := stack s1 (sp s1)\<rparr>)"

definition JP :: "int \<Rightarrow> state \<Rightarrow> state" where
  "JP addr s = s\<lparr>pc := Num addr\<rparr>"

definition CALL :: "int \<Rightarrow> state \<Rightarrow> state" where
  "CALL addr s =
    (let s1 = s\<lparr>stack := (stack s)(sp s := pc s)\<rparr>;
         s2 = s1\<lparr>sp := sp s1 + 1\<rparr>
     in s2\<lparr>pc := Num addr\<rparr>)"

definition SE_Vx_byte :: "int \<Rightarrow> int \<Rightarrow> state \<Rightarrow> state" where
  "SE_Vx_byte x byte s =
    (if js_seq (v s x) (Num byte) then s\<lparr>pc := js_add (pc s) (Num 2)\<rparr> else s)"

definition SNE_Vx_byte :: "int \<Rightarrow> int \<Rightarrow> state \<Rightarrow> state" where
  "SNE_Vx_byte x byte s =
    (if \<not> js_seq (v s x) (Num byte) then s\<lparr>pc := js_add (pc s) (Num 2)\<rparr> else s)"

definition SE_Vx_Vy :: "int \<Rightarrow> int \<Rightarrow> state \<Rightarrow> state" where
  "SE_Vx_Vy x y s =
    (if js_seq (v s x) (v s y) then s\<lparr>pc := js_add (pc s) (Num 2)\<rparr> else s)"

definition LD_Vx_byte :: "int \<Rightarrow> int \<Rightarrow> state \<Rightarrow> state" where
  "LD_Vx_byte x byte s = set_v x (Num byte) s"

definition ADD_Vx_byte :: "int \<Rightarrow> int \<Rightarrow> state \<Rightarrow> state" where
  "ADD_Vx_byte x byte s =
    (let s1 = set_v x (js_add (v s x) (Num byte)) s
     in if js_gt (v s1 x) (Num 0xFF) then set_v x (js_sub (v s1 x) (Num 0x100)) s1 else s1)"

definition LD_Vx_Vy :: "int \<Rightarrow> int \<Rightarrow> state \<Rightarrow> state" where
  "LD_Vx_Vy x y s = set_v x (v s y) s"

definition OR_Vx_Vy :: "int \<Rightarrow> int \<Rightarrow> state \<Rightarrow> state" where
  "OR_Vx_Vy x y s = set_v x (Num (ToInt32 (v s x) OR ToInt32 (v s y))) s"

definition AND_Vx_Vy :: "int \<Rightarrow> int \<Rightarrow> state \<Rightarrow> state" where
  "AND_Vx_Vy x y s = set_v x (Num (ToInt32 (v s x) AND ToInt32 (v s y))) s"

definition XOR_Vx_Vy :: "int \<Rightarrow> int \<Rightarrow> state \<Rightarrow> state" where
  "XOR_Vx_Vy x y s = set_v x (Num (ToInt32 (v s x) XOR ToInt32 (v s y))) s"

definition ADD_Vx_Vy :: "int \<Rightarrow> int \<Rightarrow> state \<Rightarrow> state" where
  "ADD_Vx_Vy x y s =
    (let s1 = set_v x (js_add (v s x) (v s y)) s;
         s2 = set_v 0xF (js_of_bool (js_gt (v s1 x) (Num 0xFF))) s1
     in if js_gt (v s2 x) (Num 0xFF) then set_v x (js_sub (v s2 x) (Num 0x100)) s2 else s2)"

definition SUB_Vx_Vy :: "int \<Rightarrow> int \<Rightarrow> state \<Rightarrow> state" where
  "SUB_Vx_Vy x y s =
    (let s1 = set_v 0xF (js_of_bool (js_gt (v s x) (v s y))) s;
         s2 = set_v x (js_sub (v s1 x) (v s1 y)) s1
     in if js_lt (v s2 x) (Num 0) then set_v x (js_add (v s2 x) (Num 0x100)) s2 else s2)"

definition SHR_Vx :: "int \<Rightarrow> state \<Rightarrow> state" where
  "SHR_Vx x s =
    (let s1 = set_v 0xF (Num (ToInt32 (v s x) AND 1)) s
     in set_v x (Num (sar32 (ToInt32 (v s1 x)) 1)) s1)"

definition SUBN_Vx_Vy :: "int \<Rightarrow> int \<Rightarrow> state \<Rightarrow> state" where
  "SUBN_Vx_Vy x y s =
    (let s1 = set_v 0xF (js_of_bool (js_gt (v s y) (v s x))) s;
         s2 = set_v x (js_sub (v s1 y) (v s1 x)) s1
     in if js_lt (v s2 x) (Num 0) then set_v x (js_add (v s2 x) (Num 0x100)) s2 else s2)"

definition SHL_Vx :: "int \<Rightarrow> state \<Rightarrow> state" where
  "SHL_Vx x s =
    (let s1 = set_v 0xF (Num (ToInt32 (v s x) AND 0x80)) s;
         s2 = set_v x (Num (shl32 (ToInt32 (v s1 x)) 1)) s1
     in if js_gt (v s2 x) (Num 0xFF) then set_v x (js_sub (v s2 x) (Num 0x100)) s2 else s2)"

definition SNE_Vx_Vy :: "int \<Rightarrow> int \<Rightarrow> state \<Rightarrow> state" where
  "SNE_Vx_Vy x y s =
    (if \<not> js_seq (v s x) (v s y) then s\<lparr>pc := js_add (pc s) (Num 2)\<rparr> else s)"

definition LD_I_addr :: "int \<Rightarrow> state \<Rightarrow> state" where
  "LD_I_addr addr s = s\<lparr>i := Num addr\<rparr>"

definition JP_V0_addr :: "int \<Rightarrow> state \<Rightarrow> state" where
  "JP_V0_addr addr s = s\<lparr>pc := js_add (Num addr) (v s 0)\<rparr>"

text \<open>
  \<open>rnd\<close> is the value of \<^verbatim>\<open>Math.floor(Math.random() * 0xFF)\<close> in this cycle, a
  number from 0 to 254.
\<close>

definition RND_Vx_byte :: "int \<Rightarrow> int \<Rightarrow> int \<Rightarrow> state \<Rightarrow> state" where
  "RND_Vx_byte rnd x byte s = set_v x (Num (ToInt32 (Num rnd) AND byte)) s"

definition LD_Vx_DT :: "int \<Rightarrow> state \<Rightarrow> state" where
  "LD_Vx_DT x s = set_v x (dt s) s"

definition LD_DT_Vx :: "int \<Rightarrow> state \<Rightarrow> state" where
  "LD_DT_Vx x s = s\<lparr>dt := v s x\<rparr>"

definition LD_ST_Vx :: "int \<Rightarrow> state \<Rightarrow> state" where
  "LD_ST_Vx x s = s\<lparr>st := v s x\<rparr>"

definition ADD_I_Vx :: "int \<Rightarrow> state \<Rightarrow> state" where
  "ADD_I_Vx x s = s\<lparr>i := js_add (i s) (v s x)\<rparr>"

definition LD_F_Vx :: "int \<Rightarrow> state \<Rightarrow> state" where
  "LD_F_Vx x s = s\<lparr>i := js_mul (v s x) (Num 5)\<rparr>"

text \<open>
  \<^verbatim>\<open>Fx33\<close> divides a local copy of \<open>Vx\<close> by 10 twice, so that copy is not integral:
  it is a rational here (\<open>None\<close> for \<^verbatim>\<open>NaN\<close>, which \<^verbatim>\<open>undefined % 10\<close> gives). The
  remainder \<^verbatim>\<open>a % b\<close> has the sign of \<open>a\<close>, and \<^verbatim>\<open>parseInt\<close> of a number cuts its
  decimal expansion at the point. The doubles of the source round \<open>v / 10\<close> and
  \<open>v / 100\<close>; on a register value that rounding never reaches the next integer, so
  the digit cut off is that of the exact quotient.
\<close>

definition trunc :: "rat \<Rightarrow> int" where
  "trunc r = (if 0 \<le> r then \<lfloor>r\<rfloor> else \<lceil>r\<rceil>)"

definition js_rem :: "rat \<Rightarrow> rat \<Rightarrow> rat" where
  "js_rem a b = a - b * of_int (trunc (a / b))"

definition parseInt :: "rat option \<Rightarrow> jsval" where
  "parseInt a = (case a of None \<Rightarrow> NaN | Some r \<Rightarrow> Num (trunc r))"

fun LD_B_Vx_loop :: "nat \<Rightarrow> rat option \<Rightarrow> jsval \<Rightarrow> (int \<Rightarrow> 8 word) \<Rightarrow> (int \<Rightarrow> 8 word)" where
  "LD_B_Vx_loop 0 a ireg m = m"
| "LD_B_Vx_loop (Suc k) a ireg m =
    LD_B_Vx_loop k (map_option (\<lambda>r. r / 10) a) ireg
      (mem_write m (js_sub (js_add ireg (Num (int (Suc k)))) (Num 1))
         (parseInt (map_option (\<lambda>r. js_rem r 10) a)))"

definition LD_B_Vx :: "int \<Rightarrow> state \<Rightarrow> state" where
  "LD_B_Vx x s =
    (let a = (case v s x of Num b \<Rightarrow> Some (of_int b) | _ \<Rightarrow> None)
     in s\<lparr>memory := LD_B_Vx_loop 3 a (i s) (memory s)\<rparr>)"

definition LD_I_Vx :: "int \<Rightarrow> state \<Rightarrow> state" where
  "LD_I_Vx x s =
    s\<lparr>memory := fold (\<lambda>k m. mem_write m (js_add (i s) (Num k)) (v s k)) [0..x] (memory s)\<rparr>"

definition LD_Vx_I :: "int \<Rightarrow> state \<Rightarrow> state" where
  "LD_Vx_I x s =
    s\<lparr>v := fold (\<lambda>k r. r(k := mem_read (memory s) (js_add (i s) (Num k)))) [0..x] (v s)\<rparr>"

section \<open>One cycle\<close>

text \<open>
  The opcode is \<^verbatim>\<open>memory[pc] << 8 | memory[pc + 1]\<close>; a byte read outside the memory
  is \<^verbatim>\<open>undefined\<close> and counts as 0 under the bitwise operators.
\<close>

definition fetch :: "state \<Rightarrow> int" where
  "fetch s =
    shl32 (ToInt32 (mem_read (memory s) (pc s))) 8
      OR ToInt32 (mem_read (memory s) (js_add (pc s) (Num 1)))"

text \<open>
  \<^verbatim>\<open>runCycle\<close>: fetch, \<^verbatim>\<open>pc += 2\<close>, then the \<^verbatim>\<open>switch\<close> on the top nibble with its
  inner switches on the whole opcode (family 0), the low nibble (family 8) or the low
  byte (families E and F). An inner \<^verbatim>\<open>switch\<close> has no \<^verbatim>\<open>default\<close>: an opcode it does
  not list leaves it with the state as it is. Only the outer \<^verbatim>\<open>switch\<close> has the
  \<^verbatim>\<open>default\<close> that throws. The keyboard cases \<^verbatim>\<open>Ex9E\<close>, \<^verbatim>\<open>ExA1\<close> and \<^verbatim>\<open>Fx0A\<close>
  are empty in the source. The \<^verbatim>\<open>console.log\<close> of every cycle is left out.
\<close>

definition runCycle :: "int \<Rightarrow> state \<Rightarrow> error + state" where
  "runCycle rnd s0 =
    (let opcode = fetch s0;
         addr = opcode AND 0xFFF;
         x = drop_bit 8 (opcode AND 0xF00);
         y = drop_bit 4 (opcode AND 0xF0);
         byte = opcode AND 0xFF;
         s = s0\<lparr>pc := js_add (pc s0) (Num 2)\<rparr>;
         top = opcode AND 0xF000
     in if top = 0 then
          (if opcode = 0xE0 then Inr (CLS s)
           else if opcode = 0xEE then Inr (RET s)
           else Inr s)
        else if top = 0x1000 then Inr (JP addr s)
        else if top = 0x2000 then Inr (CALL addr s)
        else if top = 0x3000 then Inr (SE_Vx_byte x byte s)
        else if top = 0x4000 then Inr (SNE_Vx_byte x byte s)
        else if top = 0x5000 then Inr (SE_Vx_Vy x y s)
        else if top = 0x6000 then Inr (LD_Vx_byte x byte s)
        else if top = 0x7000 then Inr (ADD_Vx_byte x byte s)
        else if top = 0x8000 then
          (let n = opcode AND 0xF
           in if n = 0 then Inr (LD_Vx_Vy x y s)
              else if n = 1 then Inr (OR_Vx_Vy x y s)
              else if n = 2 then Inr (AND_Vx_Vy x y s)
              else if n = 3 then Inr (XOR_Vx_Vy x y s)
              else if n = 4 then Inr (ADD_Vx_Vy x y s)
              else if n = 5 then Inr (SUB_Vx_Vy x y s)
              else if n = 6 then Inr (SHR_Vx x s)
              else if n = 7 then Inr (SUBN_Vx_Vy x y s)
              else if n = 0xE then Inr (SHL_Vx x s)
              else Inr s)
        else if top = 0x9000 then Inr (SNE_Vx_Vy x y s)
        else if top = 0xA000 then Inr (LD_I_addr addr s)
        else if top = 0xB000 then Inr (JP_V0_addr addr s)
        else if top = 0xC000 then Inr (RND_Vx_byte rnd x byte s)
        else if top = 0xD000 then Inr (DRW x y (opcode AND 0xF) s)
        else if top = 0xE000 then
          (let b = opcode AND 0xFF
           in if b = 0x9E then Inr s
              else if b = 0xA1 then Inr s
              else Inr s)
        else if top = 0xF000 then
          (let b = opcode AND 0xFF
           in if b = 7 then Inr (LD_Vx_DT x s)
              else if b = 0x0A then Inr s
              else if b = 0x15 then Inr (LD_DT_Vx x s)
              else if b = 0x18 then Inr (LD_ST_Vx x s)
              else if b = 0x1E then Inr (ADD_I_Vx x s)
              else if b = 0x29 then Inr (LD_F_Vx x s)
              else if b = 0x33 then Inr (LD_B_Vx x s)
              else if b = 0x55 then Inr (LD_I_Vx x s)
              else if b = 0x65 then Inr (LD_Vx_I x s)
              else Inr s)
        else Inl (Unknown_opcode opcode))"

text \<open>Several cycles in a row, one random number for each; a throw ends the run.\<close>

fun runCycles :: "int list \<Rightarrow> state \<Rightarrow> error + state" where
  "runCycles [] s = Inr s"
| "runCycles (r # rs) s = (case runCycle r s of Inl e \<Rightarrow> Inl e | Inr s1 \<Rightarrow> runCycles rs s1)"

section \<open>Programs in memory\<close>

text \<open>
  The emulator right after construction and a successful load of the program \<open>p\<close>
  (the loader calls back with \<^verbatim>\<open>null\<close> and the bytes).
\<close>

definition boot :: "8 word list \<Rightarrow> state" where
  "boot p = (case load (None, Some p) Chip8 of Inr r \<Rightarrow> fst r | Inl e \<Rightarrow> Chip8)"

text \<open>
  The states the emulator can be in: after construction and a load, and after any
  number of cycles from there.
\<close>

inductive reachable :: "state \<Rightarrow> bool" where
  reachable_boot: "reachable (boot p)"
| reachable_cycle: "reachable s \<Longrightarrow> runCycle r s = Inr s1 \<Longrightarrow> reachable s1"

text \<open>A program of sixteen nested calls: the instruction at \<open>0x200 + 2 * k\<close> calls the next one.\<close>

definition calls16 :: "8 word list" where
  "calls16 = concat (map (\<lambda>k. [0x22, word_of_nat (2 * k + 2)]) [0..<16])"

text \<open>
  A register holds a byte when it is a number from 0 to 255; \<open>registers_in_range\<close>
  says so of \<open>V0\<close> to \<open>VF\<close>.
\<close>

definition byte_value :: "jsval \<Rightarrow> bool" where
  "byte_value a = (case a of Num n \<Rightarrow> 0 \<le> n \<and> n \<le> 255 | _ \<Rightarrow> False)"

definition registers_in_range :: "state \<Rightarrow> bool" where
  "registers_in_range s = list_all (\<lambda>k. byte_value (v s k)) [0..15]"

text \<open>
  What a draw does to the display, told apart from the loops that do it. \<open>toggle\<close> is
  the write of \<^verbatim>\<open>setPixel\<close>. \<open>row_cells\<close> lists the cells of one sprite row in the
  order of the columns: the cell of column \<open>cx\<close> is in the list when bit 7 of the
  sprite byte, shifted left once per earlier column, is set. \<open>sprite_cells\<close> is that
  list for the \<^verbatim>\<open>Dxyn\<close> at \<open>pc\<close>, row after row; \<open>sprite_x\<close> and \<open>sprite_y\<close> are
  the coordinates the instruction reads, after it has zeroed \<open>VF\<close>. \<open>collisions\<close>
  says whether toggling a list of cells in order turns one of them off.
\<close>

definition toggle :: "(jsval \<Rightarrow> jsval) \<Rightarrow> jsval \<Rightarrow> (jsval \<Rightarrow> jsval)" where
  "toggle d l = d(l := Num (ToInt32 (d l) XOR 1))"

fun collisions :: "(jsval \<Rightarrow> jsval) \<Rightarrow> jsval list \<Rightarrow> bool" where
  "collisions d [] = False"
| "collisions d (l # ls) = (js_not (toggle d l l) \<or> collisions (toggle d l) ls)"

fun row_cells :: "jsval \<Rightarrow> jsval \<Rightarrow> int \<Rightarrow> jsval \<Rightarrow> int list \<Rightarrow> jsval list" where
  "row_cells vx vy cy spr [] = []"
| "row_cells vx vy cy spr (cx # cs) =
    (if ToInt32 spr AND 0x80 > 0 then [location (js_add vx (Num cx)) (js_add vy (Num cy))] else [])
      @ row_cells vx vy cy (Num (shl32 (ToInt32 spr) 1)) cs"




text \<open>
  The display of a running emulator: every property of the array is absent, 0 or 1,
  and the \<open>64 * 32\<close> cells of the buffer are present.
\<close>

definition display_ok :: "state \<Rightarrow> bool" where
  "display_ok s \<longleftrightarrow>
    (\<forall>k. display s k = Undefined \<or> display s k = Num 0 \<or> display s k = Num 1)
    \<and> (\<forall>a. 0 \<le> a \<and> a < displayWidth * displayHeight \<longrightarrow> display s (Num a) \<noteq> Undefined)"

section \<open>Decoding\<close>

text \<open>
  The opcode is a 16-bit value, and the masks and shifts of the decoder are the
  hexadecimal digits of it.
\<close>

lemma stb31_id: "- 2147483648 \<le> k \<Longrightarrow> k < 2147483648 \<Longrightarrow> signed_take_bit 31 k = (k::int)"
  by (rule signed_take_bit_int_eq_self) simp_all

lemma ToInt32_byte: "ToInt32 (Num (uint (w :: 8 word))) = uint w"
proof -
  have "0 \<le> uint w" "uint w < 256" using uint_bounded [of w] by simp_all
  then have "- 2147483648 \<le> uint w" "uint w < 2147483648" by linarith+
  then show ?thesis by (simp add: stb31_id)
qed

lemma ToInt32_mem_read_range: "0 \<le> ToInt32 (mem_read m k) \<and> ToInt32 (mem_read m k) < 256"
proof (cases k)
  case (Num a)
  show ?thesis using Num ToInt32_byte [of "m a"] uint_bounded [of "m a"] by simp
qed simp_all

lemma shl32_byte: "0 \<le> a \<Longrightarrow> a < 256 \<Longrightarrow> shl32 a 8 = a * 256"
  by (simp add: shl32_def push_bit_eq_mult stb31_id)

lemma fetch_range: "0 \<le> fetch s \<and> fetch s < 65536"
proof -
  let ?a = "ToInt32 (mem_read (memory s) (pc s))"
  let ?b = "ToInt32 (mem_read (memory s) (js_add (pc s) (Num 1)))"
  have a: "0 \<le> ?a" "?a < 256" and b: "0 \<le> ?b" "?b < 256"
    using ToInt32_mem_read_range by blast+
  have f: "fetch s = ?a * 256 OR ?b" by (simp add: fetch_def shl32_byte a)
  have "?a * 256 OR ?b < 2 ^ 16"
    by (rule OR_upper) (use a b in auto)
  moreover have "0 \<le> ?a * 256 OR ?b" using a b by simp
  ultimately show ?thesis by (simp add: f)
qed

lemma and_FFF: "(k::int) AND 0xFFF = k mod 4096"
proof -
  have e: "(0xFFF::int) = mask 12" by (simp add: mask_eq_exp_minus_1)
  show ?thesis unfolding e by (simp only: take_bit_eq_mod flip: take_bit_eq_mask) simp
qed

lemma and_FF: "(k::int) AND 0xFF = k mod 256"
proof -
  have e: "(0xFF::int) = mask 8" by (simp add: mask_eq_exp_minus_1)
  show ?thesis unfolding e by (simp only: take_bit_eq_mod flip: take_bit_eq_mask) simp
qed


lemma x_field: "drop_bit 8 ((k::int) AND 0xF00) = (k div 256) mod 16"
proof -
  have e: "(0xF00::int) = push_bit 8 (mask 4)" by (simp add: mask_eq_exp_minus_1 push_bit_eq_mult)
  have "drop_bit 8 (k AND push_bit 8 (mask 4)) = take_bit 4 (drop_bit 8 k)"
    by (rule bit_eqI) (auto simp: bit_simps)
  then show ?thesis unfolding e by (simp add: take_bit_eq_mod drop_bit_eq_div)
qed

lemma y_field: "drop_bit 4 ((k::int) AND 0xF0) = (k div 16) mod 16"
proof -
  have e: "(0xF0::int) = push_bit 4 (mask 4)" by (simp add: mask_eq_exp_minus_1 push_bit_eq_mult)
  have "drop_bit 4 (k AND push_bit 4 (mask 4)) = take_bit 4 (drop_bit 4 k)"
    by (rule bit_eqI) (auto simp: bit_simps)
  then show ?thesis unfolding e by (simp add: take_bit_eq_mod drop_bit_eq_div)
qed

lemma and_F000: "(k::int) AND 0xF000 = 4096 * ((k div 4096) mod 16)"
proof -
  have e: "(0xF000::int) = push_bit 12 (mask 4)" by (simp add: mask_eq_exp_minus_1 push_bit_eq_mult)
  have "k AND push_bit 12 (mask 4) = push_bit 12 (take_bit 4 (drop_bit 12 k))"
    by (rule bit_eqI) (auto simp: bit_simps)
  then show ?thesis unfolding e by (simp add: take_bit_eq_mod drop_bit_eq_div push_bit_eq_mult)
qed

lemma top_nibble_cases:
  "(k::int) AND 0xF000 \<in> {0, 0x1000, 0x2000, 0x3000, 0x4000, 0x5000, 0x6000, 0x7000,
      0x8000, 0x9000, 0xA000, 0xB000, 0xC000, 0xD000, 0xE000, 0xF000}"
proof -
  define j where "j = (k div 4096) mod 16"
  have "0 \<le> j" "j < 16" by (simp_all add: j_def)
  then have "j = 0 \<or> j = 1 \<or> j = 2 \<or> j = 3 \<or> j = 4 \<or> j = 5 \<or> j = 6 \<or> j = 7 \<or> j = 8
      \<or> j = 9 \<or> j = 10 \<or> j = 11 \<or> j = 12 \<or> j = 13 \<or> j = 14 \<or> j = 15"
    by presburger
  moreover have "k AND 0xF000 = 4096 * j" by (simp only: and_F000 j_def)
  ultimately show ?thesis by (elim disjE) simp_all
qed


lemmas boot_simps = runCycle_def fetch_def shl32_def boot_def load_def Chip8_def hexDigits_def

section \<open>Unknown opcodes\<close>

text \<open>
  Every value of \<open>opcode AND 0xF000\<close> is one of the sixteen cases of the outer switch,
  so its throwing \<^verbatim>\<open>default\<close> is never taken: a cycle always returns a state.
\<close>

lemma runCycle_never_throws: "\<exists>s'. runCycle rnd s = Inr s'"
proof -
  have "fetch s AND 0xF000 \<in> {0, 0x1000, 0x2000, 0x3000, 0x4000, 0x5000, 0x6000, 0x7000,
      0x8000, 0x9000, 0xA000, 0xB000, 0xC000, 0xD000, 0xE000, 0xF000}"
    by (rule top_nibble_cases)
  then show ?thesis
    unfolding runCycle_def Let_def by (elim insertE emptyE) simp_all
qed

text \<open>
  Claim C1 says that an opcode outside the instruction table stops the cycle with an
  unknown-opcode error. The code does not: on \<open>0x0123\<close>, \<open>0x800F\<close>, \<open>0xE000\<close> and
  \<open>0xF099\<close>, placed at \<open>0x200\<close> of a fresh emulator, the cycle returns normally and
  the only change to the state is \<open>pc = 0x202\<close>.
\<close>

theorem unlisted_opcodes_are_silent:
  "runCycle r (boot [0x01, 0x23]) = Inr ((boot [0x01, 0x23])\<lparr>pc := Num 0x202\<rparr>)
   \<and> runCycle r (boot [0x80, 0x0F]) = Inr ((boot [0x80, 0x0F])\<lparr>pc := Num 0x202\<rparr>)
   \<and> runCycle r (boot [0xE0, 0x00]) = Inr ((boot [0xE0, 0x00])\<lparr>pc := Num 0x202\<rparr>)
   \<and> runCycle r (boot [0xF0, 0x99]) = Inr ((boot [0xF0, 0x99])\<lparr>pc := Num 0x202\<rparr>)"
  by (simp add: boot_simps)

section \<open>Shift left\<close>

text \<open>
  Claim C2 says that \<^verbatim>\<open>8xyE\<close> sets \<open>VF\<close> to 1 when bit 7 of \<open>Vx\<close> is set. The code
  stores \<^verbatim>\<open>+(Vx & 0x80)\<close>, the masked bit itself: the program \<^verbatim>\<open>LD V0, 0x80\<close>;
  \<^verbatim>\<open>SHL V0\<close> ends with \<open>VF = 0x80\<close> (and \<open>V0 = 0\<close>).
\<close>

theorem SHL_sets_VF_to_0x80:
  "\<exists>s'. runCycles [r1, r2] (boot [0x60, 0x80, 0x80, 0x0E]) = Inr s'
     \<and> v s' 0xF = Num 0x80 \<and> v s' 0 = Num 0"
  by (simp add: boot_simps LD_Vx_byte_def SHL_Vx_def set_v_def)

section \<open>The pixel wrap\<close>

text \<open>
  Claim C10: \<^verbatim>\<open>setPixel\<close> wraps a coordinate only when it is strictly greater than
  the dimension. A column 64 is kept, so for a row \<open>y\<close> from 0 to 32 the cell is
  \<open>64 + y * 64\<close>, the first cell of the next row; at \<open>(64, 31)\<close> that is cell 2048,
  the length of the buffer, and in row 32 (not wrapped either) every cell of a column
  \<open>x \<ge> -64\<close> is at or past 2048. Column 65 and row 33 are wrapped, to 1 and 1. The
  write lands on the cell computed.
\<close>

theorem setPixel_keeps_coordinate_at_dimension:
  "(0 \<le> y \<and> y \<le> 32 \<longrightarrow> location (Num 64) (Num y) = Num (64 + y * 64))
   \<and> location (Num 64) (Num 31) = Num (displayWidth * displayHeight)
   \<and> (- 64 \<le> x \<longrightarrow> (\<exists>l. location (Num x) (Num 32) = Num l \<and> displayWidth * displayHeight \<le> l))
   \<and> location (Num 65) (Num 33) = Num (1 + 1 * 64)
   \<and> snd (setPixel (Num 64) (Num 31) s) =
       s\<lparr>display := (display s)(Num 2048 := Num (ToInt32 (display s (Num 2048)) XOR 1))\<rparr>"
  by (simp add: location_def setPixel_def displayWidth_def displayHeight_def Let_def)

theorem setPixel_keeps_coordinate_at_dimension_witness:
  "(0::int) \<le> 5 \<and> (5::int) \<le> 32 \<and> location (Num 64) (Num 5) = Num 384
   \<and> (- 64 :: int) \<le> 0 \<and> (\<exists>l. location (Num 0) (Num 32) = Num l \<and> displayWidth * displayHeight \<le> l)"
  using setPixel_keeps_coordinate_at_dimension [of 5 0 Chip8] by simp

section \<open>Loading\<close>

text \<open>
  Claim C9 says that a loader error reaches the caller of \<^verbatim>\<open>load\<close> and leaves the
  memory as it was. The callback of \<^verbatim>\<open>load\<close> does not look at \<open>err\<close> before it
  uses \<open>p\<close>: when the loader reports an error without a program, \<^verbatim>\<open>p.length\<close>
  throws a \<^verbatim>\<open>TypeError\<close> and \<^verbatim>\<open>cb(err)\<close> is never reached; when it reports an error
  together with bytes, the bytes are copied to \<open>0x200\<close> before \<^verbatim>\<open>cb(err)\<close>.
\<close>

theorem load_error_outcomes:
  "load (Some e, None) s = Inl TypeError
   \<and> (\<exists>s'. load (Some e, Some [0xAB]) Chip8 = Inr (s', Some e)
         \<and> memory Chip8 0x200 = 0 \<and> memory s' 0x200 = 0xAB)"
  by (simp add: load_def Chip8_def hexDigits_def)

section \<open>Clearing the display\<close>

text \<open>
  Claim C8 says that after \<^verbatim>\<open>00E0\<close> every cell of the emulator's display buffer is
  0. The case only calls \<^verbatim>\<open>renderer.clear()\<close>. In the program \<^verbatim>\<open>DRW V0, V0, 1\<close>;
  \<^verbatim>\<open>CLS\<close> the first cycle draws the top row of the font's \<open>0\<close> at the origin, the
  second cycle fetches \<open>0x00E0\<close>, and after it cell 0 of the buffer is still 1, with
  one call of the renderer's \<^verbatim>\<open>clear\<close> recorded.
\<close>

theorem CLS_leaves_display_buffer:
  "\<not> isl (runCycles [0, 0] (boot [0xD0, 0x01, 0x00, 0xE0]))
   \<and> display (projr (runCycles [0] (boot [0xD0, 0x01, 0x00, 0xE0]))) (Num 0) = Num 1
   \<and> fetch (projr (runCycles [0] (boot [0xD0, 0x01, 0x00, 0xE0]))) = 0xE0
   \<and> display (projr (runCycles [0, 0] (boot [0xD0, 0x01, 0x00, 0xE0]))) (Num 0) = Num 1
   \<and> renderer_cleared (projr (runCycles [0, 0] (boot [0xD0, 0x01, 0x00, 0xE0]))) = 1"
  by code_simp

section \<open>Call and return\<close>

lemma fetch_at:
  "pc s = Num a \<Longrightarrow> 0 \<le> a \<Longrightarrow> a + 1 < 0x1000 \<Longrightarrow>
   fetch s = uint (memory s a) * 256 OR uint (memory s (a + 1))"
  using uint_bounded [of "memory s a"]
  by (simp add: fetch_def ToInt32_byte shl32_byte del: ToInt32.simps)

text \<open>
  Claim C4: a \<^verbatim>\<open>CALL\<close> cycle followed by a \<^verbatim>\<open>RET\<close> cycle restores \<open>pc\<close> to the
  address after the \<^verbatim>\<open>CALL\<close> and \<open>sp\<close> to its value before it. The second cycle is
  a \<^verbatim>\<open>RET\<close> when the memory at the call target holds \<open>00 EE\<close>. This holds for every
  value of \<open>sp\<close>: the stack array takes any index.
\<close>

theorem CALL_then_RET_round_trip:
  assumes "fetch s AND 0xF000 = 0x2000"
    and "mem_read (memory s) (Num (fetch s AND 0xFFF)) = Num 0x00"
    and "mem_read (memory s) (Num ((fetch s AND 0xFFF) + 1)) = Num 0xEE"
  shows "\<exists>s1 s2. runCycle r1 s = Inr s1 \<and> pc s1 = Num (fetch s AND 0xFFF) \<and> sp s1 = sp s + 1
           \<and> runCycle r2 s1 = Inr s2 \<and> pc s2 = js_add (pc s) (Num 2) \<and> sp s2 = sp s"
proof -
  let ?s1 = "CALL (fetch s AND 0xFFF) (s\<lparr>pc := js_add (pc s) (Num 2)\<rparr>)"
  have 1: "runCycle r1 s = Inr ?s1"
    using assms(1) by (simp add: runCycle_def Let_def)
  have f: "fetch ?s1 = 0xEE"
    using assms(2,3) by (simp add: fetch_def CALL_def Let_def shl32_def)
  have 2: "runCycle r2 ?s1 = Inr (RET (?s1\<lparr>pc := js_add (pc ?s1) (Num 2)\<rparr>))"
    by (simp add: runCycle_def Let_def f)
  have 3: "pc ?s1 = Num (fetch s AND 0xFFF)" "sp ?s1 = sp s + 1"
    by (simp_all add: CALL_def Let_def)
  have 4: "pc (RET (?s1\<lparr>pc := js_add (pc ?s1) (Num 2)\<rparr>)) = js_add (pc s) (Num 2)"
    "sp (RET (?s1\<lparr>pc := js_add (pc ?s1) (Num 2)\<rparr>)) = sp s"
    by (simp_all add: CALL_def RET_def Let_def)
  from 1 2 3 4 show ?thesis by blast
qed

theorem CALL_then_RET_round_trip_witness:
  "fetch (boot [0x22, 0x04, 0, 0, 0x00, 0xEE]) AND 0xF000 = 0x2000
   \<and> mem_read (memory (boot [0x22, 0x04, 0, 0, 0x00, 0xEE])) (Num 0x204) = Num 0
   \<and> mem_read (memory (boot [0x22, 0x04, 0, 0, 0x00, 0xEE])) (Num 0x205) = Num 0xEE
   \<and> (\<exists>s1 s2. runCycle 0 (boot [0x22, 0x04, 0, 0, 0x00, 0xEE]) = Inr s1 \<and> pc s1 = Num 0x204 \<and> sp s1 = 1
           \<and> runCycle 0 s1 = Inr s2 \<and> pc s2 = Num 0x202 \<and> sp s2 = 0)"
proof -
  let ?b = "boot [0x22, 0x04, 0, 0, 0x00, 0xEE]"
  have f: "fetch ?b = 0x2204" by (simp add: boot_simps)
  have a: "fetch ?b AND 0xF000 = 0x2000" "fetch ?b AND 0xFFF = 0x204" by (simp_all add: f)
  have m: "mem_read (memory ?b) (Num 0x204) = Num 0" "mem_read (memory ?b) (Num 0x205) = Num 0xEE"
    by (simp_all add: boot_simps)
  have p: "pc ?b = Num 0x200" "sp ?b = 0" by (simp_all add: boot_simps)
  show ?thesis
    using CALL_then_RET_round_trip [of ?b 0 0] a m p by simp
qed

section \<open>What a draw leaves alone\<close>

text \<open>
  \<^verbatim>\<open>Dxyn\<close> writes the registers, the display and \<^verbatim>\<open>requestRender\<close> only: any
  observation \<open>f\<close> of the state that ignores these three is the same after a draw.
\<close>

lemma DRW_column_frame:
  assumes "\<And>t a. f (t\<lparr>v := a\<rparr>) = f t" and "\<And>t d. f (t\<lparr>display := d\<rparr>) = f t"
  shows "f (snd (DRW_column vx vy cy cx acc)) = f (snd acc)"
  by (simp add: DRW_column_def setPixel_def set_v_def Let_def assms)

lemma fold_DRW_column_frame:
  assumes "\<And>t a. f (t\<lparr>v := a\<rparr>) = f t" and "\<And>t d. f (t\<lparr>display := d\<rparr>) = f t"
  shows "f (snd (fold (DRW_column vx vy cy) cs acc)) = f (snd acc)"
  by (induction cs arbitrary: acc) (simp_all add: DRW_column_frame [of f] assms)

lemma DRW_row_frame:
  assumes "\<And>t a. f (t\<lparr>v := a\<rparr>) = f t" and "\<And>t d. f (t\<lparr>display := d\<rparr>) = f t"
    and "\<And>t b. f (t\<lparr>requestRender := b\<rparr>) = f t"
  shows "f (DRW_row vx vy cy s) = f s"
  by (simp add: DRW_row_def Let_def assms fold_DRW_column_frame [of f])

lemma fold_DRW_row_frame:
  assumes "\<And>t a. f (t\<lparr>v := a\<rparr>) = f t" and "\<And>t d. f (t\<lparr>display := d\<rparr>) = f t"
    and "\<And>t b. f (t\<lparr>requestRender := b\<rparr>) = f t"
  shows "f (fold (DRW_row vx vy) rs s) = f s"
  by (induction rs arbitrary: s) (simp_all add: DRW_row_frame [of f] assms)

lemma DRW_frame:
  assumes "\<And>t a. f (t\<lparr>v := a\<rparr>) = f t" and "\<And>t d. f (t\<lparr>display := d\<rparr>) = f t"
    and "\<And>t b. f (t\<lparr>requestRender := b\<rparr>) = f t"
  shows "f (DRW x y n s) = f s"
  by (simp add: DRW_def Let_def set_v_def fold_DRW_row_frame [of f] assms)

lemma sp_DRW: "sp (DRW x y n s) = sp s"
  by (rule DRW_frame) simp_all

lemmas instruction_defs =
  CLS_def RET_def JP_def CALL_def SE_Vx_byte_def SNE_Vx_byte_def SE_Vx_Vy_def LD_Vx_byte_def
  ADD_Vx_byte_def LD_Vx_Vy_def OR_Vx_Vy_def AND_Vx_Vy_def XOR_Vx_Vy_def ADD_Vx_Vy_def
  SUB_Vx_Vy_def SHR_Vx_def SUBN_Vx_Vy_def SHL_Vx_def SNE_Vx_Vy_def LD_I_addr_def JP_V0_addr_def
  RND_Vx_byte_def LD_Vx_DT_def LD_DT_Vx_def LD_ST_Vx_def ADD_I_Vx_def LD_F_Vx_def LD_B_Vx_def
  LD_I_Vx_def LD_Vx_I_def

section \<open>The stack pointer\<close>

lemma sp_cycle:
  assumes "runCycle r s = Inr s1"
  shows "sp s1 = (if fetch s AND 0xF000 = 0x2000 then sp s + 1
                  else if fetch s = 0xEE then sp s - 1 else sp s)"
  using assms unfolding runCycle_def Let_def
  by (auto simp: instruction_defs set_v_def sp_DRW Let_def split: if_splits)

text \<open>
  Claim C3, as amended: \<open>sp\<close> is changed only by \<^verbatim>\<open>CALL\<close> (by \<open>+1\<close>) and by
  \<^verbatim>\<open>RET\<close> (by \<open>-1\<close>), neither of which tests it. A cycle from a state with
  \<open>0 \<le> sp < 16\<close> ends with \<open>0 \<le> sp < 16\<close> unless it is a \<^verbatim>\<open>CALL\<close> at
  \<open>sp = 15\<close> or a \<^verbatim>\<open>RET\<close> at \<open>sp = 0\<close>.
\<close>

theorem sp_in_range_except_at_the_ends:
  assumes "runCycle r s = Inr s1" and "0 \<le> sp s" and "sp s < 16"
    and "\<not> (fetch s AND 0xF000 = 0x2000 \<and> sp s = 15)"
    and "\<not> (fetch s = 0xEE \<and> sp s = 0)"
  shows "0 \<le> sp s1 \<and> sp s1 < 16
    \<and> sp s1 = (if fetch s AND 0xF000 = 0x2000 then sp s + 1
                else if fetch s = 0xEE then sp s - 1 else sp s)"
  using sp_cycle [OF assms(1)] assms(2-5) by (auto split: if_splits)

theorem sp_in_range_except_at_the_ends_witness:
  "runCycle 0 (boot [0x22, 0x04]) = Inr (projr (runCycle 0 (boot [0x22, 0x04])))
   \<and> 0 \<le> sp (boot [0x22, 0x04]) \<and> sp (boot [0x22, 0x04]) < 16
   \<and> \<not> (fetch (boot [0x22, 0x04]) AND 0xF000 = 0x2000 \<and> sp (boot [0x22, 0x04]) = 15)
   \<and> \<not> (fetch (boot [0x22, 0x04]) = 0xEE \<and> sp (boot [0x22, 0x04]) = 0)
   \<and> 0 \<le> sp (projr (runCycle 0 (boot [0x22, 0x04])))
   \<and> sp (projr (runCycle 0 (boot [0x22, 0x04]))) < 16
   \<and> sp (projr (runCycle 0 (boot [0x22, 0x04]))) = 1"
proof -
  let ?b = "boot [0x22, 0x04]"
  have f: "fetch ?b = 0x2204" by (simp add: boot_simps)
  have p: "sp ?b = 0" by (simp add: boot_simps)
  obtain s1 where r: "runCycle 0 ?b = Inr s1" using runCycle_never_throws by blast
  show ?thesis
    using sp_in_range_except_at_the_ends [of 0 ?b s1] r f p by simp
qed

lemma reachable_runCycles:
  "reachable s \<Longrightarrow> runCycles rs s = Inr s1 \<Longrightarrow> reachable s1"
proof (induction rs arbitrary: s)
  case Nil
  then show ?case by simp
next
  case (Cons r rs)
  then show ?case by (auto split: sum.splits intro: reachable_cycle)
qed

lemma runCycles_never_throws: "\<exists>s1. runCycles rs s = Inr s1"
proof (induction rs arbitrary: s)
  case Nil
  show ?case by simp
next
  case (Cons r rs)
  obtain s2 where "runCycle r s = Inr s2" using runCycle_never_throws by blast
  with Cons [of s2] show ?case by simp
qed

lemma reachable_projr_runCycles: "reachable (projr (runCycles rs (boot p)))"
proof -
  obtain s1 where e: "runCycles rs (boot p) = Inr s1" using runCycles_never_throws by blast
  have "reachable s1" by (rule reachable_runCycles [OF reachable_boot e])
  then show ?thesis by (simp add: e)
qed

text \<open>
  Claim C3 as stated fails: the program \<^verbatim>\<open>RET\<close> reaches \<open>sp = -1\<close> in one cycle,
  and sixteen nested calls reach \<open>sp = 16\<close>.
\<close>

theorem sp_leaves_range_counterexample:
  "reachable (projr (runCycles [0] (boot [0x00, 0xEE])))
   \<and> sp (projr (runCycles [0] (boot [0x00, 0xEE]))) = - 1
   \<and> reachable (projr (runCycles (replicate 16 0) (boot calls16)))
   \<and> sp (projr (runCycles (replicate 16 0) (boot calls16))) = 16"
proof -
  have "sp (projr (runCycles [0] (boot [0x00, 0xEE]))) = - 1" by code_simp
  moreover have "sp (projr (runCycles (replicate 16 0) (boot calls16))) = 16" by code_simp
  ultimately show ?thesis by (simp only: reachable_projr_runCycles simp_thms)
qed

section \<open>Binary-coded decimal\<close>

text \<open>
  The digit that \<^verbatim>\<open>parseInt(v % 10)\<close> cuts off a non-negative quotient \<open>n / d\<close> is
  the last decimal digit of \<open>n div d\<close>.
\<close>

lemma trunc_js_rem:
  assumes "0 \<le> n" and "0 < d"
  shows "trunc (js_rem (of_int n / of_int d) 10) = (n div d) mod 10"
proof -
  let ?q = "of_int n / of_int d :: rat"
  have q0: "0 \<le> ?q" using assms by simp
  have "?q / 10 = of_int n / of_int (d * 10)" by simp
  then have f10: "\<lfloor>?q / 10\<rfloor> = n div (d * 10)"
    by (simp only: floor_divide_of_int_eq)
  have "0 \<le> ?q / 10" using q0 by simp
  then have "trunc (?q / 10) = \<lfloor>?q / 10\<rfloor>" unfolding trunc_def by (rule if_P)
  then have t10: "trunc (?q / 10) = n div (d * 10)"
    using f10 by (simp only:)
  have fq: "\<lfloor>?q\<rfloor> = n div d" by (simp only: floor_divide_of_int_eq)
  have r: "js_rem ?q 10 = ?q - of_int (10 * (n div (d * 10)))"
    unfolding js_rem_def t10 by simp
  have fr: "\<lfloor>js_rem ?q 10\<rfloor> = n div d - 10 * (n div (d * 10))"
    unfolding r by (simp only: floor_diff_of_int fq)
  have dd: "n div (d * 10) = (n div d) div 10"
    by (rule zdiv_zmult2_eq) simp
  have m: "n div d - 10 * (n div (d * 10)) = (n div d) mod 10"
    unfolding dd by (simp add: minus_mult_div_eq_mod)
  have "0 \<le> (n div d) mod 10" by simp
  then have "0 \<le> \<lfloor>js_rem ?q 10\<rfloor>" using fr m by simp
  then have "0 \<le> js_rem ?q 10" by simp
  then have "trunc (js_rem ?q 10) = \<lfloor>js_rem ?q 10\<rfloor>" unfolding trunc_def by (rule if_P)
  then show ?thesis using fr m by (simp only:)
qed

lemma bcd_digits:
  assumes "0 \<le> n"
  shows "trunc (js_rem (of_int n) 10) = n mod 10"
    and "trunc (js_rem (of_int n / 10) 10) = (n div 10) mod 10"
    and "trunc (js_rem (of_int n / 100) 10) = (n div 100) mod 10"
  using trunc_js_rem [of n 1] trunc_js_rem [of n 10] trunc_js_rem [of n 100] assms
  by simp_all

lemma uint_word_of_int_byte: "0 \<le> k \<Longrightarrow> k < 256 \<Longrightarrow> uint (word_of_int k :: 8 word) = k"
  by (simp add: uint_word_of_int take_bit_int_eq_self)

lemma LD_B_Vx_digits:
  assumes "v s x = Num n" and "0 \<le> n" and "n \<le> 255"
    and "i s = Num a" and "0 \<le> a" and "a + 3 \<le> 4096"
  shows "mem_read (memory (LD_B_Vx x s)) (Num a) = Num (n div 100)"
    and "mem_read (memory (LD_B_Vx x s)) (Num (a + 1)) = Num (n div 10 mod 10)"
    and "mem_read (memory (LD_B_Vx x s)) (Num (a + 2)) = Num (n mod 10)"
proof -
  define d2 d1 d0 where "d2 = n div 100" and "d1 = n div 10 mod 10" and "d0 = n mod 10"
  have h: "n div 100 mod 10 = d2" using assms(2,3) by (simp add: d2_def)
  have b2: "0 \<le> d2" "d2 < 256" using assms(2,3) by (simp_all add: d2_def)
  have b1: "0 \<le> d1" "d1 < 256" by (simp_all add: d1_def)
  have b0: "0 \<le> d0" "d0 < 256" by (simp_all add: d0_def)
  have u: "uint (word_of_int d2 :: 8 word) = d2" "uint (word_of_int d1 :: 8 word) = d1"
    "uint (word_of_int d0 :: 8 word) = d0"
    using b2 b1 b0 by (simp_all only: uint_word_of_int_byte)
  have t: "trunc (js_rem (of_int n) 10) = d0" "trunc (js_rem (of_int n / 10) 10) = d1"
    "trunc (js_rem (of_int n / 100) 10) = d2"
    using bcd_digits [OF assms(2)] h by (simp_all only: d0_def d1_def)
  have m: "memory (LD_B_Vx x s) =
      (memory s)(2 + a := word_of_int d0, 1 + a := word_of_int d1, a := word_of_int d2)"
    using assms(4-6) by (simp add: LD_B_Vx_def assms(1) numeral_3_eq_3 parseInt_def t)
  have "mem_read (memory (LD_B_Vx x s)) (Num a) = Num d2"
    using assms(5,6) by (simp add: m u)
  moreover have "mem_read (memory (LD_B_Vx x s)) (Num (a + 1)) = Num d1"
    using assms(5,6) by (simp add: m u)
  moreover have "mem_read (memory (LD_B_Vx x s)) (Num (a + 2)) = Num d0"
    using assms(5,6) by (simp add: m u)
  ultimately show "mem_read (memory (LD_B_Vx x s)) (Num a) = Num (n div 100)"
    and "mem_read (memory (LD_B_Vx x s)) (Num (a + 1)) = Num (n div 10 mod 10)"
    and "mem_read (memory (LD_B_Vx x s)) (Num (a + 2)) = Num (n mod 10)"
    by (simp_all only: d2_def d1_def d0_def)
qed

text \<open>
  Claim C6: with \<open>Vx = n\<close> in \<open>[0, 255]\<close> and \<open>I = a\<close>, \<open>0 \<le> a\<close> and
  \<open>a + 3 \<le> 4096\<close>, a cycle on \<^verbatim>\<open>Fx33\<close> returns and leaves the hundreds digit of
  \<open>n\<close> at \<open>a\<close>, the tens digit at \<open>a + 1\<close> and the ones digit at \<open>a + 2\<close>. The
  witness is the spec's \<open>234\<close>, stored as 2, 3, 4.
\<close>

theorem LD_B_Vx_stores_decimal_digits:
  assumes "fetch s AND 0xF000 = 0xF000" and "fetch s AND 0xFF = 0x33"
    and "v s (drop_bit 8 (fetch s AND 0xF00)) = Num n" and "0 \<le> n" and "n \<le> 255"
    and "i s = Num a" and "0 \<le> a" and "a + 3 \<le> 4096"
  shows "\<exists>s1. runCycle r s = Inr s1
    \<and> mem_read (memory s1) (Num a) = Num (n div 100)
    \<and> mem_read (memory s1) (Num (a + 1)) = Num (n div 10 mod 10)
    \<and> mem_read (memory s1) (Num (a + 2)) = Num (n mod 10)"
proof -
  let ?x = "drop_bit 8 (fetch s AND 0xF00)"
  let ?t = "s\<lparr>pc := js_add (pc s) (Num 2)\<rparr>"
  have 1: "runCycle r s = Inr (LD_B_Vx ?x ?t)"
    using assms(1,2) by (simp add: runCycle_def Let_def)
  have "v ?t ?x = Num n" "i ?t = Num a" using assms(3,6) by simp_all
  from LD_B_Vx_digits [OF this(1) assms(4,5) this(2) assms(7,8)] 1
  show ?thesis by blast
qed

theorem LD_B_Vx_stores_decimal_digits_witness:
  "fetch ((boot [0xF0, 0x33])\<lparr>v := (\<lambda>k. Num 234), i := Num 0x300\<rparr>) AND 0xF000 = 0xF000
   \<and> fetch ((boot [0xF0, 0x33])\<lparr>v := (\<lambda>k. Num 234), i := Num 0x300\<rparr>) AND 0xFF = 0x33
   \<and> (0::int) \<le> 234 \<and> (234::int) \<le> 255 \<and> (0::int) \<le> 0x300 \<and> (0x300::int) + 3 \<le> 4096
   \<and> (\<exists>s1. runCycle 0 ((boot [0xF0, 0x33])\<lparr>v := (\<lambda>k. Num 234), i := Num 0x300\<rparr>) = Inr s1
        \<and> mem_read (memory s1) (Num 0x300) = Num 2
        \<and> mem_read (memory s1) (Num 0x301) = Num 3
        \<and> mem_read (memory s1) (Num 0x302) = Num 4)"
proof -
  let ?s = "(boot [0xF0, 0x33])\<lparr>v := (\<lambda>k. Num 234), i := Num 0x300\<rparr>"
  have f: "fetch ?s = 0xF033" by (simp add: boot_simps)
  have a: "fetch ?s AND 0xF000 = 0xF000" "fetch ?s AND 0xFF = 0x33" by (simp_all add: f)
  show ?thesis
    using LD_B_Vx_stores_decimal_digits [of ?s 234 "0x300" 0] a by simp
qed

section \<open>Register values\<close>

text \<open>
  Each instruction that writes a register keeps \<open>V0\<close> to \<open>VF\<close> bytes, also when
  \<open>x\<close> or \<open>y\<close> is the flag register itself.
\<close>

lemma byte_value_iff: "byte_value a \<longleftrightarrow> (\<exists>n. a = Num n \<and> 0 \<le> n \<and> n \<le> 255)"
  by (cases a) (simp_all add: byte_value_def)

lemma registers_in_range_iff:
  "registers_in_range s \<longleftrightarrow> (\<forall>k. 0 \<le> k \<and> k \<le> 15 \<longrightarrow> byte_value (v s k))"
  by (auto simp: registers_in_range_def list_all_iff)

lemma registers_in_rangeD: "registers_in_range s \<Longrightarrow> 0 \<le> k \<Longrightarrow> k \<le> 15 \<Longrightarrow> byte_value (v s k)"
  by (simp add: registers_in_range_iff)

lemma registers_in_range_set_v:
  "registers_in_range s \<Longrightarrow> byte_value a \<Longrightarrow> registers_in_range (set_v k a s)"
  by (simp add: registers_in_range_iff set_v_def)

lemma registers_in_range_upd [simp]:
  "registers_in_range (s\<lparr>pc := p\<rparr>) = registers_in_range s"
  "registers_in_range (s\<lparr>i := q\<rparr>) = registers_in_range s"
  "registers_in_range (s\<lparr>dt := q\<rparr>) = registers_in_range s"
  "registers_in_range (s\<lparr>st := q\<rparr>) = registers_in_range s"
  "registers_in_range (s\<lparr>sp := n\<rparr>) = registers_in_range s"
  "registers_in_range (s\<lparr>stack := k\<rparr>) = registers_in_range s"
  "registers_in_range (s\<lparr>memory := m\<rparr>) = registers_in_range s"
  "registers_in_range (s\<lparr>display := d\<rparr>) = registers_in_range s"
  "registers_in_range (s\<lparr>requestRender := b\<rparr>) = registers_in_range s"
  "registers_in_range (s\<lparr>renderer_cleared := c\<rparr>) = registers_in_range s"
  by (simp_all add: registers_in_range_def)

lemma ToInt32_small: "0 \<le> n \<Longrightarrow> n \<le> 255 \<Longrightarrow> ToInt32 (Num n) = n"
  by (simp add: stb31_id)

lemma byte_ops:
  assumes "0 \<le> (m::int)" "m \<le> 255" "0 \<le> (n::int)" "n \<le> 255"
  shows "0 \<le> m OR n" "m OR n \<le> 255" "0 \<le> m AND n" "m AND n \<le> 255"
    "0 \<le> m XOR n" "m XOR n \<le> 255"
proof -
  have "m < 2 ^ 8" "n < 2 ^ 8" using assms by simp_all
  then have "m OR n < 2 ^ 8" "m XOR n < 2 ^ 8"
    using assms OR_upper [of m 8 n] XOR_upper [of m 8 n] by simp_all
  then show "m OR n \<le> 255" "m XOR n \<le> 255" by simp_all
  show "0 \<le> m OR n" "0 \<le> m AND n" "0 \<le> m XOR n" using assms by simp_all
  have "m AND n \<le> m" using assms by (simp add: AND_upper1)
  then show "m AND n \<le> 255" using assms by simp
qed

lemma shl32_one: "0 \<le> n \<Longrightarrow> n \<le> 255 \<Longrightarrow> shl32 n (Suc 0) = 2 * n"
  by (simp add: shl32_def stb31_id)

lemma sar32_one: "sar32 n 1 = n div 2" "sar32 n (Suc 0) = n div 2"
  by (simp_all add: sar32_def drop_bit_eq_div)

lemma ADD_Vx_byte_range:
  assumes "registers_in_range s" "0 \<le> x" "x \<le> 15" "0 \<le> b" "b \<le> 255"
  shows "registers_in_range (ADD_Vx_byte x b s)"
proof -
  obtain m where m: "v s x = Num m" "0 \<le> m" "m \<le> 255"
    using registers_in_rangeD [OF assms(1-3)] by (auto simp: byte_value_iff)
  show ?thesis
    using assms m
    by (auto simp: registers_in_range_iff ADD_Vx_byte_def set_v_def Let_def byte_value_iff)
qed

lemma logic_range:
  assumes "registers_in_range s" "0 \<le> x" "x \<le> 15" "0 \<le> y" "y \<le> 15"
  shows "registers_in_range (OR_Vx_Vy x y s)" "registers_in_range (AND_Vx_Vy x y s)"
    "registers_in_range (XOR_Vx_Vy x y s)" "registers_in_range (LD_Vx_Vy x y s)"
proof -
  obtain m where m: "v s x = Num m" "0 \<le> m" "m \<le> 255"
    using registers_in_rangeD [OF assms(1-3)] by (auto simp: byte_value_iff)
  obtain n where n: "v s y = Num n" "0 \<le> n" "n \<le> 255"
    using registers_in_rangeD [OF assms(1,4,5)] by (auto simp: byte_value_iff)
  have t: "ToInt32 (Num m) = m" "ToInt32 (Num n) = n" using m n by (simp_all only: ToInt32_small)
  note b = byte_ops [OF m(2,3) n(2,3)]
  have "byte_value (Num (m OR n))" "byte_value (Num (m AND n))" "byte_value (Num (m XOR n))"
    "byte_value (Num n)"
    using b n by (simp_all add: byte_value_def)
  then show "registers_in_range (OR_Vx_Vy x y s)" "registers_in_range (AND_Vx_Vy x y s)"
    "registers_in_range (XOR_Vx_Vy x y s)" "registers_in_range (LD_Vx_Vy x y s)"
    unfolding OR_Vx_Vy_def AND_Vx_Vy_def XOR_Vx_Vy_def LD_Vx_Vy_def m n t
    by (simp_all only: registers_in_range_set_v [OF assms(1)])
qed

lemma arith_range:
  assumes "registers_in_range s" "0 \<le> x" "x \<le> 15" "0 \<le> y" "y \<le> 15"
  shows "registers_in_range (ADD_Vx_Vy x y s)" "registers_in_range (SUB_Vx_Vy x y s)"
    "registers_in_range (SUBN_Vx_Vy x y s)"
proof -
  obtain m where m: "v s x = Num m" "0 \<le> m" "m \<le> 255"
    using registers_in_rangeD [OF assms(1-3)] by (auto simp: byte_value_iff)
  obtain n where n: "v s y = Num n" "0 \<le> n" "n \<le> 255"
    using registers_in_rangeD [OF assms(1,4,5)] by (auto simp: byte_value_iff)
  show "registers_in_range (ADD_Vx_Vy x y s)"
    using assms m n
    by (auto simp: registers_in_range_iff ADD_Vx_Vy_def set_v_def Let_def byte_value_iff js_of_bool_def)
  show "registers_in_range (SUB_Vx_Vy x y s)"
    using assms m n
    by (auto simp: registers_in_range_iff SUB_Vx_Vy_def set_v_def Let_def byte_value_iff js_of_bool_def)
  show "registers_in_range (SUBN_Vx_Vy x y s)"
    using assms m n
    by (auto simp: registers_in_range_iff SUBN_Vx_Vy_def set_v_def Let_def byte_value_iff js_of_bool_def)
qed

lemma shift_range:
  assumes "registers_in_range s" "0 \<le> x" "x \<le> 15"
  shows "registers_in_range (SHR_Vx x s)" "registers_in_range (SHL_Vx x s)"
proof -
  obtain m where m: "v s x = Num m" "0 \<le> m" "m \<le> 255"
    using registers_in_rangeD [OF assms(1-3)] by (auto simp: byte_value_iff)
  define c1 c7 where "c1 = m AND 1" and "c7 = m AND 0x80"
  have t: "ToInt32 (Num m) = m" using m by (simp only: ToInt32_small)
  have c: "0 \<le> c1" "c1 \<le> 255" "0 \<le> c7" "c7 \<le> 255"
    using byte_ops(3,4) [of m 1] byte_ops(3,4) [of m "0x80"] m by (simp_all add: c1_def c7_def)
  have tc: "ToInt32 (Num c1) = c1" "ToInt32 (Num c7) = c7" using c by (simp_all only: ToInt32_small)
  have s1: "shl32 m (Suc 0) = 2 * m" "shl32 c7 (Suc 0) = 2 * c7"
    using m c by (simp_all only: shl32_one)
  show "registers_in_range (SHR_Vx x s)"
    using assms m c
    by (auto simp: registers_in_range_iff SHR_Vx_def set_v_def Let_def byte_value_iff
        t tc sar32_one c1_def [symmetric] simp del: ToInt32.simps)
  show "registers_in_range (SHL_Vx x s)"
    using assms m c
    by (auto simp: registers_in_range_iff SHL_Vx_def set_v_def Let_def byte_value_iff
        t tc s1 c7_def [symmetric] simp del: ToInt32.simps)
qed

lemma load_range:
  assumes "registers_in_range s" "0 \<le> b" "b \<le> 255"
  shows "registers_in_range (LD_Vx_byte x b s)" "registers_in_range (RND_Vx_byte rnd x b s)"
proof -
  have "0 \<le> signed_take_bit 31 rnd AND b" using assms(2) by simp
  moreover have "signed_take_bit 31 rnd AND b \<le> b" using assms(2) by (simp add: AND_upper2)
  ultimately have "byte_value (Num (ToInt32 (Num rnd) AND b))"
    using assms(3) by (simp add: byte_value_def)
  then show "registers_in_range (RND_Vx_byte rnd x b s)"
    unfolding RND_Vx_byte_def by (rule registers_in_range_set_v [OF assms(1)])
  have "byte_value (Num b)" using assms(2,3) by (simp add: byte_value_def)
  then show "registers_in_range (LD_Vx_byte x b s)"
    unfolding LD_Vx_byte_def by (rule registers_in_range_set_v [OF assms(1)])
qed

lemma DRW_column_range:
  "registers_in_range (snd acc) \<Longrightarrow> registers_in_range (snd (DRW_column vx vy cy cx acc))"
  by (simp add: DRW_column_def setPixel_def Let_def registers_in_range_set_v byte_value_def)

lemma fold_DRW_column_range:
  "registers_in_range (snd acc) \<Longrightarrow> registers_in_range (snd (fold (DRW_column vx vy cy) cs acc))"
  by (induction cs arbitrary: acc) (simp_all add: DRW_column_range)

lemma fold_DRW_row_range:
  "registers_in_range s \<Longrightarrow> registers_in_range (fold (DRW_row vx vy) rs s)"
  by (induction rs arbitrary: s) (simp_all add: DRW_row_def Let_def fold_DRW_column_range)

lemma DRW_range: "registers_in_range s \<Longrightarrow> registers_in_range (DRW x y n s)"
  by (simp add: DRW_def Let_def fold_DRW_row_range registers_in_range_set_v byte_value_def)

lemma fold_read_range:
  assumes "\<forall>k\<in>set ks. byte_value (mem_read m (js_add q (Num k)))"
    and "\<forall>k. 0 \<le> k \<and> k \<le> 15 \<longrightarrow> byte_value (regs k)"
  shows "\<forall>k. 0 \<le> k \<and> k \<le> 15 \<longrightarrow>
    byte_value (fold (\<lambda>k r. r(k := mem_read m (js_add q (Num k)))) ks regs k)"
  using assms by (induction ks arbitrary: regs) simp_all

lemma LD_Vx_I_range:
  assumes "registers_in_range s" and "i s = Num a" and "0 \<le> a" and "a + x < 0x1000"
  shows "registers_in_range (LD_Vx_I x s)"
proof -
  have "\<forall>k\<in>set [0..x]. byte_value (mem_read (memory s) (js_add (i s) (Num k)))"
  proof
    fix k assume "k \<in> set [0..x]"
    then have k: "0 \<le> k" "k \<le> x" by simp_all
    have "uint (memory s (a + k)) \<le> 255" using uint_bounded [of "memory s (a + k)"] by simp
    then show "byte_value (mem_read (memory s) (js_add (i s) (Num k)))"
      using k assms(2-4) by (simp add: byte_value_def)
  qed
  from fold_read_range [OF this] assms(1) show ?thesis
    by (simp add: registers_in_range_iff LD_Vx_I_def)
qed

lemma untouched_registers:
  "registers_in_range (CLS s) = registers_in_range s"
  "registers_in_range (RET s) = registers_in_range s"
  "registers_in_range (JP a s) = registers_in_range s"
  "registers_in_range (CALL a s) = registers_in_range s"
  "registers_in_range (SE_Vx_byte x b s) = registers_in_range s"
  "registers_in_range (SNE_Vx_byte x b s) = registers_in_range s"
  "registers_in_range (SE_Vx_Vy x y s) = registers_in_range s"
  "registers_in_range (SNE_Vx_Vy x y s) = registers_in_range s"
  "registers_in_range (LD_I_addr a s) = registers_in_range s"
  "registers_in_range (JP_V0_addr a s) = registers_in_range s"
  "registers_in_range (LD_DT_Vx x s) = registers_in_range s"
  "registers_in_range (LD_ST_Vx x s) = registers_in_range s"
  "registers_in_range (ADD_I_Vx x s) = registers_in_range s"
  "registers_in_range (LD_F_Vx x s) = registers_in_range s"
  "registers_in_range (LD_B_Vx x s) = registers_in_range s"
  "registers_in_range (LD_I_Vx x s) = registers_in_range s"
  by (simp_all add: instruction_defs Let_def)

lemma dt_set_v: "dt (set_v k a s) = dt s"
  by (simp add: set_v_def)

lemma untouched_dt:
  "dt (CLS s) = dt s" "dt (RET s) = dt s" "dt (JP a s) = dt s" "dt (CALL a s) = dt s"
  "dt (SE_Vx_byte x b s) = dt s" "dt (SNE_Vx_byte x b s) = dt s" "dt (SE_Vx_Vy x y s) = dt s"
  "dt (SNE_Vx_Vy x y s) = dt s" "dt (LD_Vx_byte x b s) = dt s" "dt (ADD_Vx_byte x b s) = dt s"
  "dt (LD_Vx_Vy x y s) = dt s" "dt (OR_Vx_Vy x y s) = dt s" "dt (AND_Vx_Vy x y s) = dt s"
  "dt (XOR_Vx_Vy x y s) = dt s" "dt (ADD_Vx_Vy x y s) = dt s" "dt (SUB_Vx_Vy x y s) = dt s"
  "dt (SHR_Vx x s) = dt s" "dt (SUBN_Vx_Vy x y s) = dt s" "dt (SHL_Vx x s) = dt s"
  "dt (LD_I_addr a s) = dt s" "dt (JP_V0_addr a s) = dt s" "dt (RND_Vx_byte r x b s) = dt s"
  "dt (LD_Vx_DT x s) = dt s" "dt (LD_ST_Vx x s) = dt s" "dt (ADD_I_Vx x s) = dt s"
  "dt (LD_F_Vx x s) = dt s" "dt (LD_B_Vx x s) = dt s" "dt (LD_I_Vx x s) = dt s"
  "dt (LD_Vx_I x s) = dt s"
  by (simp_all add: instruction_defs Let_def dt_set_v)

lemma dt_DRW: "dt (DRW x y n s) = dt s"
  by (rule DRW_frame) simp_all

lemma LD_Vx_DT_range:
  "registers_in_range s \<Longrightarrow> byte_value (dt s) \<Longrightarrow> registers_in_range (LD_Vx_DT x s)"
  by (simp add: LD_Vx_DT_def registers_in_range_set_v)

lemma LD_DT_Vx_range:
  "registers_in_range s \<Longrightarrow> 0 \<le> x \<Longrightarrow> x \<le> 15 \<Longrightarrow> byte_value (dt (LD_DT_Vx x s))"
  by (simp add: LD_DT_Vx_def registers_in_rangeD)

text \<open>
  The arithmetic instructions reduce their result modulo 256. \<^verbatim>\<open>8xy4\<close> writes
  the flag between the addition and the reduction, and \<^verbatim>\<open>8xyE\<close> before the shift,
  so \<open>Vx\<close> is the reduced result when \<open>x\<close> is not the flag register; \<^verbatim>\<open>8xy5\<close> and
  \<^verbatim>\<open>8xy7\<close> write the flag before they subtract, so neither \<open>x\<close> nor \<open>y\<close> may be
  the flag register.
\<close>

lemma wrap_mod_256:
  assumes "0 \<le> (k::int)" and "k \<le> 510"
  shows "(if k > 255 then k - 256 else k) = k mod 256"
proof (cases "k > 255")
  case True
  then have "0 \<le> k - 256" "k - 256 < 256" using assms by linarith+
  then have "(k - 256) mod 256 = k - 256" by (rule mod_pos_pos_trivial)
  moreover have "(k - 256) mod 256 = k mod 256" by (rule minus_mod_self2)
  ultimately have "k mod 256 = k - 256" by (simp only:)
  with True show ?thesis by (simp only: if_True)
next
  case False
  then have "k < 256" by linarith
  with assms(1) have "k mod 256 = k" by (rule mod_pos_pos_trivial)
  with False show ?thesis by (simp only: if_False)
qed

lemma ADD_Vx_byte_mod_256:
  assumes "v s x = Num m" "0 \<le> m" "m \<le> 255" "0 \<le> b" "b \<le> 255"
  shows "v (ADD_Vx_byte x b s) x = Num ((m + b) mod 256)"
proof -
  have 1: "v (ADD_Vx_byte x b s) x = Num (if m + b > 255 then m + b - 256 else m + b)"
    using assms(1) by (simp add: ADD_Vx_byte_def set_v_def Let_def)
  have "0 \<le> m + b" "m + b \<le> 510" using assms(2-5) by linarith+
  from wrap_mod_256 [OF this] 1 show ?thesis by (simp only:)
qed

lemma borrow_mod_256:
  assumes "- 255 \<le> (k::int)" and "k \<le> 255"
  shows "(if k < 0 then k + 256 else k) = k mod 256"
proof (cases "k < 0")
  case True
  then have "0 \<le> k + 256" "k + 256 < 256" using assms by linarith+
  then have "(k + 256) mod 256 = k + 256" by (rule mod_pos_pos_trivial)
  moreover have "(k + 256) mod 256 = k mod 256" by (rule mod_add_self2)
  ultimately have "k mod 256 = k + 256" by (simp only:)
  with True show ?thesis by (simp only: if_True)
next
  case False
  then have "0 \<le> k" "k < 256" using assms by linarith+
  then have "k mod 256 = k" by (rule mod_pos_pos_trivial)
  with False show ?thesis by (simp only: if_False)
qed

lemma ADD_Vx_Vy_mod_256:
  assumes "v s x = Num n" "0 \<le> n" "n \<le> 255" "v s y = Num m" "0 \<le> m" "m \<le> 255"
    and "x \<noteq> 0xF"
  shows "v (ADD_Vx_Vy x y s) x = Num ((n + m) mod 256)"
proof -
  have 1: "v (ADD_Vx_Vy x y s) x = Num (if n + m > 255 then n + m - 256 else n + m)"
    using assms(1,4,7) by (simp add: ADD_Vx_Vy_def set_v_def Let_def)
  have "0 \<le> n + m" "n + m \<le> 510" using assms(2,3,5,6) by linarith+
  from wrap_mod_256 [OF this] 1 show ?thesis by (simp only:)
qed

lemma SHL_Vx_mod_256:
  assumes "v s x = Num n" "0 \<le> n" "n \<le> 255" and "x \<noteq> 0xF"
  shows "v (SHL_Vx x s) x = Num ((2 * n) mod 256)"
proof -
  have t: "ToInt32 (Num n) = n" using assms(2,3) by (simp only: ToInt32_small)
  have h: "shl32 n (Suc 0) = 2 * n" using assms(2,3) by (simp only: shl32_one)
  have 1: "v (SHL_Vx x s) x = Num (if 2 * n > 255 then 2 * n - 256 else 2 * n)"
    using assms(1,4) by (simp add: SHL_Vx_def set_v_def Let_def t h del: ToInt32.simps)
  have "0 \<le> 2 * n" "2 * n \<le> 510" using assms(2,3) by linarith+
  from wrap_mod_256 [OF this] 1 show ?thesis by (simp only:)
qed

lemma SUB_SUBN_mod_256:
  assumes "v s x = Num n" "0 \<le> n" "n \<le> 255" "v s y = Num m" "0 \<le> m" "m \<le> 255"
    and "x \<noteq> 0xF" and "y \<noteq> 0xF"
  shows "v (SUB_Vx_Vy x y s) x = Num ((n - m) mod 256)"
    and "v (SUBN_Vx_Vy x y s) x = Num ((m - n) mod 256)"
proof -
  have 2: "v (SUB_Vx_Vy x y s) x = Num (if n - m < 0 then n - m + 256 else n - m)"
    using assms(1,4,7,8) by (simp add: SUB_Vx_Vy_def set_v_def Let_def)
  have 3: "v (SUBN_Vx_Vy x y s) x = Num (if m - n < 0 then m - n + 256 else m - n)"
    using assms(1,4,7,8) by (simp add: SUBN_Vx_Vy_def set_v_def Let_def)
  have b: "- 255 \<le> n - m" "n - m \<le> 255" and c: "- 255 \<le> m - n" "m - n \<le> 255"
    using assms(2,3,5,6) by linarith+
  from borrow_mod_256 [OF b] 2 show "v (SUB_Vx_Vy x y s) x = Num ((n - m) mod 256)"
    by (simp only:)
  from borrow_mod_256 [OF c] 3 show "v (SUBN_Vx_Vy x y s) x = Num ((m - n) mod 256)"
    by (simp only:)
qed

text \<open>A cycle keeps the registers and the delay timer bytes, unless it reads past the memory.\<close>

lemma registers_range_cycle:
  assumes "registers_in_range s" and "byte_value (dt s)" and "runCycle r s = Inr s1"
    and "fetch s AND 0xF000 = 0xF000 \<and> fetch s AND 0xFF = 0x65 \<longrightarrow>
      (\<exists>a. i s = Num a \<and> 0 \<le> a \<and> a + drop_bit 8 (fetch s AND 0xF00) < 0x1000)"
  shows "registers_in_range s1 \<and> byte_value (dt s1)"
proof -
  define x y b t where "x = drop_bit 8 (fetch s AND 0xF00)" and "y = drop_bit 4 (fetch s AND 0xF0)"
    and "b = fetch s AND 0xFF" and "t = s\<lparr>pc := js_add (pc s) (Num 2)\<rparr>"
  have xb: "0 \<le> x" "x \<le> 15" by (simp_all add: x_def x_field)
  have yb: "0 \<le> y" "y \<le> 15" by (simp_all add: y_def y_field)
  have bb: "0 \<le> b" "b \<le> 255" by (simp_all add: b_def and_FF)
  have rt: "registers_in_range t" and dt: "byte_value (dt t)" and it: "i t = i s"
    using assms(1,2) by (simp_all add: t_def)
  note R = ADD_Vx_byte_range [OF rt xb bb] logic_range [OF rt xb yb] arith_range [OF rt xb yb]
    shift_range [OF rt xb] load_range [OF rt bb] DRW_range [OF rt] LD_Vx_DT_range [OF rt dt]
    LD_DT_Vx_range [OF rt xb] untouched_registers untouched_dt dt_DRW
  have L: "registers_in_range (LD_Vx_I x t)"
    if "fetch s AND 0xF000 = 0xF000" "b = 0x65"
    using assms(4) that LD_Vx_I_range [OF rt, of _ x] by (auto simp: b_def x_def it)
  show ?thesis
    using assms(3) L rt dt
    unfolding runCycle_def Let_def x_def [symmetric] y_def [symmetric] b_def [symmetric]
      t_def [symmetric]
    by (auto split: if_splits simp: R)
qed

text \<open>
  Claim C7, as amended: from a state in which \<open>V0\<close> to \<open>VF\<close> and \<open>DT\<close> hold
  numbers in \<open>[0, 255]\<close>, every cycle ends in such a state, unless it is an
  \<^verbatim>\<open>Fx65\<close> that reads past the memory: \<open>I\<close> has to be a number \<open>a \<ge> 0\<close> with
  \<open>a + x < 0x1000\<close>. \<open>DT\<close> is part of the premise because \<^verbatim>\<open>Fx07\<close> copies it into
  a register. With \<open>n\<close> and \<open>m\<close> the values of \<open>Vx\<close> and \<open>Vy\<close> before the cycle,
  \<^verbatim>\<open>7xkk\<close> leaves \<open>Vx = (n + kk) mod 256\<close>; when \<open>x\<close> is not \<open>0xF\<close>, \<^verbatim>\<open>8xy4\<close>
  leaves \<open>Vx = (n + m) mod 256\<close> and \<^verbatim>\<open>8xyE\<close> leaves \<open>Vx = (2 * n) mod 256\<close>;
  when neither \<open>x\<close> nor \<open>y\<close> is \<open>0xF\<close>, \<^verbatim>\<open>8xy5\<close> leaves
  \<open>Vx = (n - m) mod 256\<close> and \<^verbatim>\<open>8xy7\<close> leaves \<open>Vx = (m - n) mod 256\<close>.
\<close>

theorem registers_stay_in_range:
  assumes "registers_in_range s" and "byte_value (dt s)" and "runCycle r s = Inr s1"
    and "fetch s AND 0xF000 = 0xF000 \<and> fetch s AND 0xFF = 0x65 \<longrightarrow>
      (\<exists>a. i s = Num a \<and> 0 \<le> a \<and> a + drop_bit 8 (fetch s AND 0xF00) < 0x1000)"
  shows "registers_in_range s1 \<and> byte_value (dt s1)
    \<and> (\<exists>n m. v s (drop_bit 8 (fetch s AND 0xF00)) = Num n
          \<and> v s (drop_bit 4 (fetch s AND 0xF0)) = Num m
          \<and> (fetch s AND 0xF000 = 0x7000 \<longrightarrow>
                v s1 (drop_bit 8 (fetch s AND 0xF00)) = Num ((n + (fetch s AND 0xFF)) mod 256))
          \<and> (fetch s AND 0xF000 = 0x8000 \<and> drop_bit 8 (fetch s AND 0xF00) \<noteq> 0xF \<longrightarrow>
                (fetch s AND 0xF = 4 \<longrightarrow>
                   v s1 (drop_bit 8 (fetch s AND 0xF00)) = Num ((n + m) mod 256))
              \<and> (fetch s AND 0xF = 0xE \<longrightarrow>
                   v s1 (drop_bit 8 (fetch s AND 0xF00)) = Num ((2 * n) mod 256))
              \<and> (drop_bit 4 (fetch s AND 0xF0) \<noteq> 0xF \<longrightarrow>
                   (fetch s AND 0xF = 5 \<longrightarrow>
                      v s1 (drop_bit 8 (fetch s AND 0xF00)) = Num ((n - m) mod 256))
                 \<and> (fetch s AND 0xF = 7 \<longrightarrow>
                      v s1 (drop_bit 8 (fetch s AND 0xF00)) = Num ((m - n) mod 256)))))"
proof -
  define x y b t where "x = drop_bit 8 (fetch s AND 0xF00)" and "y = drop_bit 4 (fetch s AND 0xF0)"
    and "b = fetch s AND 0xFF" and "t = s\<lparr>pc := js_add (pc s) (Num 2)\<rparr>"
  have xb: "0 \<le> x" "x \<le> 15" by (simp_all add: x_def x_field)
  have yb: "0 \<le> y" "y \<le> 15" by (simp_all add: y_def y_field)
  have bb: "0 \<le> b" "b \<le> 255" by (simp_all add: b_def and_FF)
  obtain n where n: "v s x = Num n" "0 \<le> n" "n \<le> 255"
    using registers_in_rangeD [OF assms(1) xb] by (auto simp: byte_value_iff)
  obtain m where m: "v s y = Num m" "0 \<le> m" "m \<le> 255"
    using registers_in_rangeD [OF assms(1) yb] by (auto simp: byte_value_iff)
  have nt: "v t x = Num n" and mt: "v t y = Num m" using n m by (simp_all add: t_def)
  have c7: "v s1 x = Num ((n + b) mod 256)" if "fetch s AND 0xF000 = 0x7000"
  proof -
    have "s1 = ADD_Vx_byte x b t"
      using assms(3) that by (simp add: runCycle_def Let_def x_def b_def t_def)
    then show ?thesis using ADD_Vx_byte_mod_256 [OF nt n(2,3) bb] by simp
  qed
  have c4: "v s1 x = Num ((n + m) mod 256)"
    if "fetch s AND 0xF000 = 0x8000" "fetch s AND 0xF = 4" "x \<noteq> 0xF"
  proof -
    have "s1 = ADD_Vx_Vy x y t"
      using assms(3) that(1,2) by (simp add: runCycle_def Let_def x_def y_def t_def)
    then show ?thesis using ADD_Vx_Vy_mod_256 [OF nt n(2,3) mt m(2,3) that(3)] by simp
  qed
  have cE: "v s1 x = Num ((2 * n) mod 256)"
    if "fetch s AND 0xF000 = 0x8000" "fetch s AND 0xF = 0xE" "x \<noteq> 0xF"
  proof -
    have "s1 = SHL_Vx x t"
      using assms(3) that(1,2) by (simp add: runCycle_def Let_def x_def y_def t_def)
    then show ?thesis using SHL_Vx_mod_256 [OF nt n(2,3) that(3)] by simp
  qed
  have c5: "v s1 x = Num ((n - m) mod 256)"
    if "fetch s AND 0xF000 = 0x8000" "fetch s AND 0xF = 5" "x \<noteq> 0xF" "y \<noteq> 0xF"
  proof -
    have "s1 = SUB_Vx_Vy x y t"
      using assms(3) that(1,2) by (simp add: runCycle_def Let_def x_def y_def t_def)
    then show ?thesis using SUB_SUBN_mod_256(1) [OF nt n(2,3) mt m(2,3) that(3,4)] by simp
  qed
  have c6: "v s1 x = Num ((m - n) mod 256)"
    if "fetch s AND 0xF000 = 0x8000" "fetch s AND 0xF = 7" "x \<noteq> 0xF" "y \<noteq> 0xF"
  proof -
    have "s1 = SUBN_Vx_Vy x y t"
      using assms(3) that(1,2) by (simp add: runCycle_def Let_def x_def y_def t_def)
    then show ?thesis using SUB_SUBN_mod_256(2) [OF nt n(2,3) mt m(2,3) that(3,4)] by simp
  qed
  have range: "registers_in_range s1 \<and> byte_value (dt s1)"
    by (rule registers_range_cycle [OF assms])
  have "v s x = Num n \<and> v s y = Num m
      \<and> (fetch s AND 0xF000 = 0x7000 \<longrightarrow> v s1 x = Num ((n + b) mod 256))
      \<and> (fetch s AND 0xF000 = 0x8000 \<and> x \<noteq> 0xF \<longrightarrow>
            (fetch s AND 0xF = 4 \<longrightarrow> v s1 x = Num ((n + m) mod 256))
          \<and> (fetch s AND 0xF = 0xE \<longrightarrow> v s1 x = Num ((2 * n) mod 256))
          \<and> (y \<noteq> 0xF \<longrightarrow>
               (fetch s AND 0xF = 5 \<longrightarrow> v s1 x = Num ((n - m) mod 256))
             \<and> (fetch s AND 0xF = 7 \<longrightarrow> v s1 x = Num ((m - n) mod 256))))"
    using n(1) m(1) c7 c4 cE c5 c6 by blast
  then show ?thesis
    using range unfolding x_def y_def b_def by blast
qed

theorem registers_stay_in_range_witness:
  "registers_in_range (boot [0xF1, 0x65]) \<and> byte_value (dt (boot [0xF1, 0x65]))
   \<and> runCycle 0 (boot [0xF1, 0x65]) = Inr (projr (runCycle 0 (boot [0xF1, 0x65])))
   \<and> fetch (boot [0xF1, 0x65]) AND 0xF000 = 0xF000 \<and> fetch (boot [0xF1, 0x65]) AND 0xFF = 0x65
   \<and> i (boot [0xF1, 0x65]) = Num 0 \<and> drop_bit 8 (fetch (boot [0xF1, 0x65]) AND 0xF00) = 1
   \<and> registers_in_range (projr (runCycle 0 (boot [0xF1, 0x65])))
   \<and> byte_value (dt (projr (runCycle 0 (boot [0xF1, 0x65]))))
   \<and> registers_in_range (projr (runCycles [0, 0] (boot [0x60, 0x03, 0x61, 0x05, 0x80, 0x15])))
   \<and> byte_value (dt (projr (runCycles [0, 0] (boot [0x60, 0x03, 0x61, 0x05, 0x80, 0x15]))))
   \<and> fetch (projr (runCycles [0, 0] (boot [0x60, 0x03, 0x61, 0x05, 0x80, 0x15]))) = 0x8015
   \<and> v (projr (runCycles [0, 0] (boot [0x60, 0x03, 0x61, 0x05, 0x80, 0x15]))) 0 = Num 3
   \<and> v (projr (runCycles [0, 0] (boot [0x60, 0x03, 0x61, 0x05, 0x80, 0x15]))) 1 = Num 5
   \<and> (\<exists>s1. runCycle 0 (projr (runCycles [0, 0] (boot [0x60, 0x03, 0x61, 0x05, 0x80, 0x15]))) = Inr s1
         \<and> registers_in_range s1 \<and> v s1 0 = Num 254)"
proof -
  let ?b = "boot [0xF1, 0x65]"
  have f: "fetch ?b = 0xF165" by (simp add: boot_simps)
  have a: "fetch ?b AND 0xF000 = 0xF000" "fetch ?b AND 0xFF = 0x65"
    "drop_bit 8 (fetch ?b AND 0xF00) = 1"
    by (simp_all add: f)
  have r: "registers_in_range ?b" by code_simp
  have d: "byte_value (dt ?b)" "i ?b = Num 0" by (simp_all add: boot_simps byte_value_def)
  obtain s1 where e: "runCycle 0 ?b = Inr s1" using runCycle_never_throws by blast
  have 1: "registers_in_range ?b \<and> byte_value (dt ?b)
     \<and> runCycle 0 ?b = Inr (projr (runCycle 0 ?b))
     \<and> fetch ?b AND 0xF000 = 0xF000 \<and> fetch ?b AND 0xFF = 0x65
     \<and> i ?b = Num 0 \<and> drop_bit 8 (fetch ?b AND 0xF00) = 1
     \<and> registers_in_range (projr (runCycle 0 ?b))
     \<and> byte_value (dt (projr (runCycle 0 ?b)))"
    using registers_stay_in_range [of ?b 0 s1] a r d e by simp
  define c where "c = projr (runCycles [0, 0] (boot [0x60, 0x03, 0x61, 0x05, 0x80, 0x15]))"
  have cf: "fetch c = 0x8015" unfolding c_def by code_simp
  have cr: "registers_in_range c" unfolding c_def by code_simp
  have cd: "byte_value (dt c)" unfolding c_def by code_simp
  have cv: "v c 0 = Num 3" "v c 1 = Num 5" unfolding c_def by code_simp+
  obtain s2 where ce: "runCycle 0 c = Inr s2" using runCycle_never_throws by blast
  have ch: "fetch c AND 0xF000 = 0xF000 \<and> fetch c AND 0xFF = 0x65 \<longrightarrow>
      (\<exists>a. i c = Num a \<and> 0 \<le> a \<and> a + drop_bit 8 (fetch c AND 0xF00) < 0x1000)"
    by (simp add: cf)
  have "registers_in_range s2 \<and> v s2 0 = Num 254"
    using registers_stay_in_range [OF cr cd ce ch] by (simp add: cf cv)
  then have 2: "\<exists>s1. runCycle 0 c = Inr s1 \<and> registers_in_range s1 \<and> v s1 0 = Num 254"
    using ce by blast
  from 1 2 cr cd cf cv show ?thesis unfolding c_def by (simp only: simp_thms)
qed

text \<open>
  Claim C7 as stated fails: after \<^verbatim>\<open>LD I, 0xFFF\<close> all registers are still 0, and
  the following \<^verbatim>\<open>LD V1, [I]\<close> reads \<^verbatim>\<open>memory[0x1000]\<close>, which is
  \<^verbatim>\<open>undefined\<close>, into \<open>V1\<close>. And with the flag register as an operand the result
  is not the difference modulo 256: \<^verbatim>\<open>SUB V0, VF\<close> on \<open>V0 = 5\<close>, \<open>VF = 3\<close> writes
  the flag 1 first and leaves \<open>V0 = 4\<close>, where \<open>(5 - 3) mod 256 = 2\<close>.
\<close>

theorem registers_leave_range_counterexample:
  "reachable (projr (runCycles [0] (boot [0xAF, 0xFF, 0xF1, 0x65])))
   \<and> registers_in_range (projr (runCycles [0] (boot [0xAF, 0xFF, 0xF1, 0x65])))
   \<and> fetch (projr (runCycles [0] (boot [0xAF, 0xFF, 0xF1, 0x65]))) = 0xF165
   \<and> \<not> isl (runCycles [0, 0] (boot [0xAF, 0xFF, 0xF1, 0x65]))
   \<and> v (projr (runCycles [0, 0] (boot [0xAF, 0xFF, 0xF1, 0x65]))) 1 = Undefined
   \<and> \<not> registers_in_range (projr (runCycles [0, 0] (boot [0xAF, 0xFF, 0xF1, 0x65])))
   \<and> reachable (projr (runCycles [0, 0] (boot [0x60, 0x05, 0x6F, 0x03, 0x80, 0xF5])))
   \<and> fetch (projr (runCycles [0, 0] (boot [0x60, 0x05, 0x6F, 0x03, 0x80, 0xF5]))) = 0x80F5
   \<and> v (projr (runCycles [0, 0] (boot [0x60, 0x05, 0x6F, 0x03, 0x80, 0xF5]))) 0 = Num 5
   \<and> v (projr (runCycles [0, 0] (boot [0x60, 0x05, 0x6F, 0x03, 0x80, 0xF5]))) 0xF = Num 3
   \<and> \<not> isl (runCycles [0, 0, 0] (boot [0x60, 0x05, 0x6F, 0x03, 0x80, 0xF5]))
   \<and> v (projr (runCycles [0, 0, 0] (boot [0x60, 0x05, 0x6F, 0x03, 0x80, 0xF5]))) 0 = Num 4
   \<and> (5 - 3) mod 256 = (2::int)"
proof -
  have "registers_in_range (projr (runCycles [0] (boot [0xAF, 0xFF, 0xF1, 0x65])))"
    by code_simp
  moreover have "fetch (projr (runCycles [0] (boot [0xAF, 0xFF, 0xF1, 0x65]))) = 0xF165"
    by code_simp
  moreover have "\<not> isl (runCycles [0, 0] (boot [0xAF, 0xFF, 0xF1, 0x65]))"
    by code_simp
  moreover have "v (projr (runCycles [0, 0] (boot [0xAF, 0xFF, 0xF1, 0x65]))) 1 = Undefined"
    by code_simp
  moreover have "\<not> registers_in_range (projr (runCycles [0, 0] (boot [0xAF, 0xFF, 0xF1, 0x65])))"
    by code_simp
  moreover have "fetch (projr (runCycles [0, 0] (boot [0x60, 0x05, 0x6F, 0x03, 0x80, 0xF5]))) = 0x80F5"
    by code_simp
  moreover have "v (projr (runCycles [0, 0] (boot [0x60, 0x05, 0x6F, 0x03, 0x80, 0xF5]))) 0 = Num 5"
    by code_simp
  moreover have "v (projr (runCycles [0, 0] (boot [0x60, 0x05, 0x6F, 0x03, 0x80, 0xF5]))) 0xF = Num 3"
    by code_simp
  moreover have "\<not> isl (runCycles [0, 0, 0] (boot [0x60, 0x05, 0x6F, 0x03, 0x80, 0xF5]))"
    by code_simp
  moreover have "v (projr (runCycles [0, 0, 0] (boot [0x60, 0x05, 0x6F, 0x03, 0x80, 0xF5]))) 0 = Num 4"
    by code_simp
  moreover have "(5 - 3) mod 256 = (2::int)" by simp
  ultimately show ?thesis by (simp only: reachable_projr_runCycles simp_thms)
qed

section \<open>Drawing a sprite\<close>

text \<open>
  The loops of \<^verbatim>\<open>Dxyn\<close> toggle the cells of \<open>row_cells\<close> in order, and set \<open>VF\<close>
  to 1 when one of the toggles turns a cell off.
\<close>

lemma fold_toggle_append:
  "fold (\<lambda>l d. toggle d l) (ls @ ms) d = fold (\<lambda>l d. toggle d l) ms (fold (\<lambda>l d. toggle d l) ls d)"
  by simp

lemma collisions_append:
  "collisions d (ls @ ms) \<longleftrightarrow> collisions d ls \<or> collisions (fold (\<lambda>l d. toggle d l) ls d) ms"
  by (induction ls arbitrary: d) auto

lemma setPixel_toggle:
  "setPixel x y s = (js_not (toggle (display s) (location x y) (location x y)),
                     s\<lparr>display := toggle (display s) (location x y)\<rparr>)"
  by (simp add: setPixel_def toggle_def Let_def)

lemma DRW_column_step:
  "DRW_column vx vy cy cx (spr, s) =
    (Num (shl32 (ToInt32 spr) 1),
     if 0 < ToInt32 spr AND 0x80
     then (if js_not (toggle (display s) (location (js_add vx (Num cx)) (js_add vy (Num cy)))
                       (location (js_add vx (Num cx)) (js_add vy (Num cy))))
           then s\<lparr>display := toggle (display s) (location (js_add vx (Num cx)) (js_add vy (Num cy))),
                  v := (v s)(0xF := Num 1)\<rparr>
           else s\<lparr>display := toggle (display s) (location (js_add vx (Num cx)) (js_add vy (Num cy)))\<rparr>)
     else s)"
  by (simp add: DRW_column_def setPixel_toggle set_v_def Let_def)

lemma fold_DRW_column:
  "snd (fold (DRW_column vx vy cy) cs (spr, s)) =
    s\<lparr>display := fold (\<lambda>l d. toggle d l) (row_cells vx vy cy spr cs) (display s),
       v := (if collisions (display s) (row_cells vx vy cy spr cs)
             then (v s)(0xF := Num 1) else v s)\<rparr>"
proof (induction cs arbitrary: spr s)
  case Nil
  show ?case by simp
next
  case (Cons cx cs)
  show ?case
    by (simp add: DRW_column_step Cons.IH)
qed

lemma fold_DRW_row:
  "display (fold (DRW_row vx vy) cys s) =
      fold (\<lambda>l d. toggle d l)
        (concat (map (\<lambda>cy. row_cells vx vy cy (mem_read (memory s) (js_add (i s) (Num cy))) [0..7]) cys))
        (display s)
   \<and> v (fold (DRW_row vx vy) cys s) =
      (if collisions (display s)
            (concat (map (\<lambda>cy. row_cells vx vy cy (mem_read (memory s) (js_add (i s) (Num cy))) [0..7]) cys))
       then (v s)(0xF := Num 1) else v s)"
proof (induction cys arbitrary: s)
  case Nil
  show ?case by simp
next
  case (Cons cy cys)
  let ?s1 = "DRW_row vx vy cy s"
  let ?row = "row_cells vx vy cy (mem_read (memory s) (js_add (i s) (Num cy))) [0..7]"
  have m: "memory ?s1 = memory s" "i ?s1 = i s"
    by (rule DRW_row_frame, simp_all)+
  have d: "display ?s1 = fold (\<lambda>l d. toggle d l) ?row (display s)"
    and r: "v ?s1 = (if collisions (display s) ?row then (v s)(0xF := Num 1) else v s)"
    by (simp_all add: DRW_row_def Let_def fold_DRW_column)
  show ?case
    using Cons.IH [of ?s1]
    by (simp add: m d r collisions_append)
qed

lemma DRW_effect:
  "display (DRW x y n s) =
      fold (\<lambda>l d. toggle d l)
        (concat (map (\<lambda>cy. row_cells (((v s)(0xF := Num 0)) x) (((v s)(0xF := Num 0)) y) cy
                              (mem_read (memory s) (js_add (i s) (Num cy))) [0..7]) [0..n - 1]))
        (display s)
   \<and> v (DRW x y n s) =
      (v s)(0xF := Num (if collisions (display s)
        (concat (map (\<lambda>cy. row_cells (((v s)(0xF := Num 0)) x) (((v s)(0xF := Num 0)) y) cy
                              (mem_read (memory s) (js_add (i s) (Num cy))) [0..7]) [0..n - 1]))
        then 1 else 0))"
  using fold_DRW_row [of "((v s)(0xF := Num 0)) x" "((v s)(0xF := Num 0)) y" "[0..n - 1]"
      "set_v 0xF (Num 0) s"]
  by (simp add: DRW_def Let_def set_v_def)



text \<open>
  Toggling a list of cells leaves the other cells alone, and turns each cell of a list
  without repetition over once.
\<close>

lemma toggle_apply: "toggle d l k = (if k = l then Num (ToInt32 (d l) XOR 1) else d k)"
  by (simp add: toggle_def)















text \<open>The display of a reachable state holds only 0 and 1 in the cells of the buffer.\<close>

lemma display_ok_cong: "display t = display s \<Longrightarrow> display_ok t = display_ok s"
  by (simp add: display_ok_def)

lemma display_ok_toggle:
  assumes "display_ok (s\<lparr>display := d\<rparr>)"
  shows "display_ok (s\<lparr>display := toggle d l\<rparr>)"
proof -
  have 1: "d k = Undefined \<or> d k = Num 0 \<or> d k = Num 1" for k
    using assms by (simp add: display_ok_def)
  have 2: "d (Num a) \<noteq> Undefined" if "0 \<le> a \<and> a < displayWidth * displayHeight" for a
    using assms that by (simp add: display_ok_def)
  have 3: "toggle d l k = Undefined \<or> toggle d l k = Num 0 \<or> toggle d l k = Num 1" for k
    using 1 [of k] 1 [of l] by (auto simp: toggle_apply)
  have 4: "toggle d l (Num a) \<noteq> Undefined" if "0 \<le> a \<and> a < displayWidth * displayHeight" for a
    using 2 [OF that] by (simp add: toggle_apply)
  show ?thesis using 3 4 by (simp add: display_ok_def)
qed

lemma display_ok_fold_toggle:
  "display_ok (s\<lparr>display := d\<rparr>) \<Longrightarrow> display_ok (s\<lparr>display := fold (\<lambda>l d. toggle d l) ls d\<rparr>)"
proof (induction ls arbitrary: d)
  case Nil
  then show ?case by simp
next
  case (Cons l ls)
  have "display_ok (s\<lparr>display := toggle d l\<rparr>)" using Cons.prems by (rule display_ok_toggle)
  then have "display_ok (s\<lparr>display := fold (\<lambda>l d. toggle d l) ls (toggle d l)\<rparr>)"
    by (rule Cons.IH)
  then show ?case by simp
qed

lemma display_ok_DRW:
  assumes "display_ok s"
  shows "display_ok (DRW x y n s)"
proof -
  obtain ls where "display (DRW x y n s) = fold (\<lambda>l d. toggle d l) ls (display s)"
    using DRW_effect [of x y n s] by blast
  then have "display_ok (DRW x y n s) = display_ok (s\<lparr>display := fold (\<lambda>l d. toggle d l) ls (display s)\<rparr>)"
    by (intro display_ok_cong) simp
  moreover have "display_ok (s\<lparr>display := display s\<rparr>)" using assms by simp
  ultimately show ?thesis using display_ok_fold_toggle by blast
qed

lemma untouched_display:
  "display_ok (CLS s) = display_ok s" "display_ok (RET s) = display_ok s"
  "display_ok (JP a s) = display_ok s" "display_ok (CALL a s) = display_ok s"
  "display_ok (SE_Vx_byte x b s) = display_ok s" "display_ok (SNE_Vx_byte x b s) = display_ok s"
  "display_ok (SE_Vx_Vy x y s) = display_ok s" "display_ok (SNE_Vx_Vy x y s) = display_ok s"
  "display_ok (LD_Vx_byte x b s) = display_ok s" "display_ok (ADD_Vx_byte x b s) = display_ok s"
  "display_ok (LD_Vx_Vy x y s) = display_ok s" "display_ok (OR_Vx_Vy x y s) = display_ok s"
  "display_ok (AND_Vx_Vy x y s) = display_ok s" "display_ok (XOR_Vx_Vy x y s) = display_ok s"
  "display_ok (ADD_Vx_Vy x y s) = display_ok s" "display_ok (SUB_Vx_Vy x y s) = display_ok s"
  "display_ok (SHR_Vx x s) = display_ok s" "display_ok (SUBN_Vx_Vy x y s) = display_ok s"
  "display_ok (SHL_Vx x s) = display_ok s" "display_ok (LD_I_addr a s) = display_ok s"
  "display_ok (JP_V0_addr a s) = display_ok s" "display_ok (RND_Vx_byte r x b s) = display_ok s"
  "display_ok (LD_Vx_DT x s) = display_ok s" "display_ok (LD_DT_Vx x s) = display_ok s"
  "display_ok (LD_ST_Vx x s) = display_ok s" "display_ok (ADD_I_Vx x s) = display_ok s"
  "display_ok (LD_F_Vx x s) = display_ok s" "display_ok (LD_B_Vx x s) = display_ok s"
  "display_ok (LD_I_Vx x s) = display_ok s" "display_ok (LD_Vx_I x s) = display_ok s"
  by (rule display_ok_cong, simp add: instruction_defs set_v_def Let_def)+

lemma display_ok_cycle:
  assumes "display_ok s" and "runCycle r s = Inr s1"
  shows "display_ok s1"
proof -
  have t: "display_ok (s\<lparr>pc := js_add (pc s) (Num 2)\<rparr>)"
    using assms(1) by (simp add: display_ok_def)
  show ?thesis
    using assms(2) t display_ok_DRW [OF t] unfolding runCycle_def Let_def
    by (auto split: if_splits simp: untouched_display)
qed

lemma display_ok_boot: "display_ok (boot p)"
  by (simp add: boot_def load_def Chip8_def display_ok_def split: jsval.splits)

lemma reachable_display_ok: "reachable s \<Longrightarrow> display_ok s"
  by (induction rule: reachable.induct) (auto intro: display_ok_boot display_ok_cycle)

section \<open>Drawing twice\<close>















end
